theory Spec2Isabelle
  imports Complex_Main
begin

section \<open>Python values shared by the three modules\<close>

text \<open>
  Exceptions are values. Every constructor stands for a class derived from Python's
  \<open>Exception\<close>, so an \<open>except Exception\<close> clause catches all of them and an
  \<open>except ValueError\<close> clause catches the first one only. The argument is \<open>str(e)\<close>.
  Asynchronous exits (\<open>KeyboardInterrupt\<close>, \<open>SystemExit\<close>) are not modelled.
\<close>

datatype py_exc =
    ValueError string
  | IndexError string
  | AttributeError string
  | TypeError string
  | LibraryError string

fun exc_str :: "py_exc \<Rightarrow> string" where
  "exc_str (ValueError m) = m"
| "exc_str (IndexError m) = m"
| "exc_str (AttributeError m) = m"
| "exc_str (TypeError m) = m"
| "exc_str (LibraryError m) = m"

text \<open>\<open>str(n)\<close> for a non-negative Python int, and \<open>str(i)\<close> for any int.\<close>

definition digit_char :: "nat \<Rightarrow> char" where
  "digit_char d = ''0123456789'' ! d"

fun str_nat :: "nat \<Rightarrow> string" where
  "str_nat n = (if n < 10 then [digit_char n] else str_nat (n div 10) @ [digit_char (n mod 10)])"

declare str_nat.simps [simp del]

definition str_int :: "int \<Rightarrow> string" where
  "str_int i = (if i < 0 then ''-'' @ str_nat (nat (- i)) else str_nat (nat i))"

section \<open>board_detector.py: serialising the board array\<close>

text \<open>
  A board is the list of lists \<open>board[row][col]\<close> of Python strings that
  \<open>get_position_fen\<close> builds; a cell holding \<open>' '\<close> is an empty square.
  \<open>board[row][col]\<close> raises IndexError outside the lists; the loops only use the
  indices of \<open>range(8)\<close>, so negative indices do not occur.
\<close>

type_synonym board = "string list list"

definition index_error :: py_exc where
  "index_error = IndexError ''list index out of range''"

text \<open>The inner loop \<open>for col in range(8)\<close> of \<open>_board_to_fen\<close>, on the pair (fen, empty_count).\<close>

fun fen_cols :: "board \<Rightarrow> nat \<Rightarrow> nat list \<Rightarrow> string \<times> nat \<Rightarrow> py_exc + string \<times> nat" where
  "fen_cols board row [] st = Inr st"
| "fen_cols board row (col # cols) (fen, empty_count) =
     (if row < length board \<and> col < length (board ! row) then
        (if board ! row ! col = '' '' then fen_cols board row cols (fen, empty_count + 1)
         else
           (let fen1 = (if empty_count > 0 then fen @ str_nat empty_count else fen)
            in fen_cols board row cols (fen1 @ board ! row ! col, 0)))
      else Inl index_error)"

text \<open>The outer loop \<open>for row in range(8)\<close>.\<close>

fun fen_rows :: "board \<Rightarrow> nat list \<Rightarrow> string \<Rightarrow> py_exc + string" where
  "fen_rows board [] fen = Inr fen"
| "fen_rows board (row # rows) fen =
     (case fen_cols board row [0..<8] (fen, 0) of
        Inl e \<Rightarrow> Inl e
      | Inr (fen1, empty_count) \<Rightarrow>
          (let fen2 = (if empty_count > 0 then fen1 @ str_nat empty_count else fen1);
               fen3 = (if row < 7 then fen2 @ ''/'' else fen2)
           in fen_rows board rows fen3))"

definition board_to_fen :: "board \<Rightarrow> py_exc + string" where
  "board_to_fen board =
     (case fen_rows board [0..<8] '''' of
        Inl e \<Rightarrow> Inl e
      | Inr fen \<Rightarrow> Inr (fen @ '' w KQkq - 0 1''))"

subsection \<open>Reading a placement field back\<close>

text \<open>
  The repository has no decoder of its own (it hands the notation to a chess library), so
  the reader below follows the wording of the specification: the placement is the first
  space-separated field, its ranks are separated by \<open>/\<close>, each digit expands to that many
  empty squares and every other character is a piece.
\<close>

definition placement :: "string \<Rightarrow> string" where
  "placement fen = takeWhile (\<lambda>c. c \<noteq> CHR '' '') fen"

fun split_on :: "char \<Rightarrow> string \<Rightarrow> string list" where
  "split_on sep [] = [[]]"
| "split_on sep (c # cs) =
     (if c = sep then [] # split_on sep cs
      else (case split_on sep cs of [] \<Rightarrow> [[c]] | w # ws \<Rightarrow> (c # w) # ws))"

definition is_digit :: "char \<Rightarrow> bool" where
  "is_digit c = (c \<in> set ''0123456789'')"

definition digit_val :: "char \<Rightarrow> nat" where
  "digit_val c = of_char c - 48"

fun decode_rank :: "string \<Rightarrow> string list" where
  "decode_rank [] = []"
| "decode_rank (c # cs) =
     (if is_digit c then replicate (digit_val c) '' '' @ decode_rank cs
      else [c] # decode_rank cs)"

definition decode_placement :: "string \<Rightarrow> board" where
  "decode_placement p = map decode_rank (split_on CHR ''/'' p)"

definition piece_labels :: "string set" where
  "piece_labels = {'' '', ''P'', ''N'', ''B'', ''R'', ''Q'', ''K'',
                   ''p'', ''n'', ''b'', ''r'', ''q'', ''k''}"

definition is_grid8 :: "board \<Rightarrow> bool" where
  "is_grid8 board = (length board = 8 \<and> list_all (\<lambda>r. length r = 8) board)"


subsection \<open>Auxiliary functions for reasoning about the serialiser\<close>

text \<open>
  \<open>rank_text e cells\<close> is the text one pass of the inner loop adds for the cells still
  to be visited, entered with \<open>empty_count = e\<close>, the closing count included;
  \<open>rank_sep\<close> is the separator the outer loop adds after a row.
\<close>

fun rank_text :: "nat \<Rightarrow> string list \<Rightarrow> string" where
  "rank_text e [] = (if e > 0 then str_nat e else [])"
| "rank_text e (c # cs) =
     (if c = '' '' then rank_text (e + 1) cs
      else (if e > 0 then str_nat e else []) @ c @ rank_text 0 cs)"

definition rank_sep :: "nat \<Rightarrow> string" where
  "rank_sep row = (if row < 7 then ''/'' else [])"

section \<open>board_detector.py: images and the square classifier\<close>

text \<open>
  What the detector receives as an image: Python's \<open>None\<close>, a one-dimensional array, a
  two-dimensional array of 8-bit pixels (rows of pixels), or a three-dimensional array with
  three channels per pixel. Rows of one array have one length in numpy; the functions below
  are total on lists all the same.
\<close>

datatype ndarray =
    NoneImage
  | Flat "nat list"
  | Gray "nat list list"
  | Color "(nat \<times> nat \<times> nat) list list"

text \<open>\<open>len(a.shape)\<close> and \<open>height, width = a.shape[:2]\<close>.\<close>

definition no_shape :: py_exc where
  "no_shape = AttributeError ''NoneType object has no attribute shape''"

fun ndim :: "ndarray \<Rightarrow> py_exc + nat" where
  "ndim NoneImage = Inl no_shape"
| "ndim (Flat xs) = Inr 1"
| "ndim (Gray rows) = Inr 2"
| "ndim (Color rows) = Inr 3"

definition row_width :: "'a list list \<Rightarrow> nat" where
  "row_width rows = (case rows of [] \<Rightarrow> 0 | r # _ \<Rightarrow> length r)"

fun shape2 :: "ndarray \<Rightarrow> py_exc + nat \<times> nat" where
  "shape2 NoneImage = Inl no_shape"
| "shape2 (Flat xs) = Inl (ValueError ''not enough values to unpack (expected 2, got 1)'')"
| "shape2 (Gray rows) = Inr (length rows, row_width rows)"
| "shape2 (Color rows) = Inr (length rows, row_width rows)"

text \<open>\<open>xs[a:b]\<close> for \<open>0 \<le> a \<le> b\<close>: clipped to the list, never an error.\<close>

definition slice :: "nat \<Rightarrow> nat \<Rightarrow> 'a list \<Rightarrow> 'a list" where
  "slice a b xs = take (b - a) (drop a xs)"

text \<open>\<open>a[y1:y2, x1:x2]\<close>.\<close>

fun crop :: "ndarray \<Rightarrow> nat \<Rightarrow> nat \<Rightarrow> nat \<Rightarrow> nat \<Rightarrow> py_exc + ndarray" where
  "crop NoneImage y1 y2 x1 x2 = Inl (TypeError ''NoneType object is not subscriptable'')"
| "crop (Flat xs) y1 y2 x1 x2 = Inl (IndexError ''too many indices for array'')"
| "crop (Gray rows) y1 y2 x1 x2 = Inr (Gray (map (slice x1 x2) (slice y1 y2 rows)))"
| "crop (Color rows) y1 y2 x1 x2 = Inr (Color (map (slice x1 x2) (slice y1 y2 rows)))"

text \<open>
  \<open>np.mean\<close>: the mean of all entries, as an exact rational; \<open>None\<close> stands for the
  NaN numpy returns on an array without entries, and every comparison with NaN is false.
  The entries are 8-bit integers, so the float sum is exact and the float quotient is the
  rounded exact quotient; it compares with 90 and 170 as the exact quotient does for any
  array of fewer than \<open>2^46\<close> entries.
\<close>

fun entries :: "ndarray \<Rightarrow> py_exc + nat list" where
  "entries NoneImage = Inl (TypeError ''unsupported operand type(s) for /: NoneType and int'')"
| "entries (Flat xs) = Inr xs"
| "entries (Gray rows) = Inr (concat rows)"
| "entries (Color rows) = Inr (concat (map (\<lambda>(b, g, r). [b, g, r]) (concat rows)))"

definition mean :: "nat list \<Rightarrow> rat option" where
  "mean xs = (if xs = [] then None else Some (of_nat (sum_list xs) / of_nat (length xs)))"

definition np_mean :: "ndarray \<Rightarrow> py_exc + rat option" where
  "np_mean a = (case entries a of Inl e \<Rightarrow> Inl e | Inr xs \<Rightarrow> Inr (mean xs))"

definition nan_less :: "rat option \<Rightarrow> rat option \<Rightarrow> bool" where
  "nan_less a b = (case (a, b) of (Some x, Some y) \<Rightarrow> x < y | _ \<Rightarrow> False)"

definition nan_ge :: "rat option \<Rightarrow> rat option \<Rightarrow> bool" where
  "nan_ge a b = (case (a, b) of (Some x, Some y) \<Rightarrow> x \<ge> y | _ \<Rightarrow> False)"

text \<open>
  The OpenCV functions the detector calls are not part of the repository: they are
  parameters, and each of them may raise.
\<close>

type_synonym point = "int \<times> int"
type_synonym contour = "point list"

record cv2_lib =
  cvtColor_BGR2GRAY :: "ndarray \<Rightarrow> py_exc + ndarray"
  adaptiveThreshold :: "ndarray \<Rightarrow> py_exc + ndarray"
  findContours :: "ndarray \<Rightarrow> py_exc + contour list"
  arcLength :: "contour \<Rightarrow> py_exc + rat"
  approxPolyDP :: "contour \<Rightarrow> rat \<Rightarrow> py_exc + point list"
  contourArea :: "contour \<Rightarrow> py_exc + rat"
  getPerspectiveTransform :: "point list \<Rightarrow> point list \<Rightarrow> py_exc + rat list list"
  warpPerspective :: "ndarray \<Rightarrow> rat list list \<Rightarrow> nat \<times> nat \<Rightarrow> py_exc + ndarray"

text \<open>\<open>_detect_piece_on_square\<close>; the result \<open>None\<close> of its docstring is \<open>None\<close> here.\<close>

definition detect_piece_on_square :: "cv2_lib \<Rightarrow> ndarray \<Rightarrow> py_exc + string option" where
  "detect_piece_on_square cv square_img =
     (case ndim square_img of
        Inl e \<Rightarrow> Inl e
      | Inr n \<Rightarrow>
          (case (if n = 3 then cvtColor_BGR2GRAY cv square_img else Inr square_img) of
             Inl e \<Rightarrow> Inl e
           | Inr gray \<Rightarrow>
               (case np_mean gray of
                  Inl e \<Rightarrow> Inl e
                | Inr avg_brightness \<Rightarrow>
                    if nan_less (Some 90) avg_brightness \<and> nan_less avg_brightness (Some 170)
                    then Inr (Some '' '')
                    else if nan_ge avg_brightness (Some 170) then Inr (Some ''P'')
                    else Inr (Some ''p''))))"

text \<open>
  The value \<open>avg_brightness\<close> that \<open>_detect_piece_on_square\<close> computes before it compares:
  its first three statements, on their own.
\<close>

definition avg_brightness_of :: "cv2_lib \<Rightarrow> ndarray \<Rightarrow> py_exc + rat option" where
  "avg_brightness_of cv square_img =
     (case ndim square_img of
        Inl e \<Rightarrow> Inl e
      | Inr n \<Rightarrow>
          (case (if n = 3 then cvtColor_BGR2GRAY cv square_img else Inr square_img) of
             Inl e \<Rightarrow> Inl e
           | Inr gray \<Rightarrow> np_mean gray))"

section \<open>board_detector.py: get_position_fen\<close>

text \<open>A \<open>for\<close> loop over a list whose body may raise: the first exception ends it.\<close>

fun for_each :: "('a \<Rightarrow> 's \<Rightarrow> py_exc + 's) \<Rightarrow> 'a list \<Rightarrow> 's \<Rightarrow> py_exc + 's" where
  "for_each body [] st = Inr st"
| "for_each body (x # xs) st =
     (case body x st of Inl e \<Rightarrow> Inl e | Inr st' \<Rightarrow> for_each body xs st')"

text \<open>\<open>if piece:\<close> is false for \<open>None\<close> and for the empty string.\<close>

definition truthy :: "string option \<Rightarrow> bool" where
  "truthy piece = (case piece of None \<Rightarrow> False | Some p \<Rightarrow> p \<noteq> [])"

definition square_at :: "ndarray \<Rightarrow> nat \<Rightarrow> nat \<Rightarrow> nat \<Rightarrow> py_exc + ndarray" where
  "square_at board_image square_size row col =
     crop board_image (row * square_size) ((row + 1) * square_size)
                      (col * square_size) ((col + 1) * square_size)"

text \<open>The body of the two nested loops, for one (row, col).\<close>

definition scan_square ::
  "(ndarray \<Rightarrow> py_exc + string option) \<Rightarrow> ndarray \<Rightarrow> nat \<Rightarrow> nat \<Rightarrow> nat \<Rightarrow> board \<Rightarrow> py_exc + board"
where
  "scan_square classify board_image square_size row col board =
     (case square_at board_image square_size row col of
        Inl e \<Rightarrow> Inl e
      | Inr square_img \<Rightarrow>
          (case classify square_img of
             Inl e \<Rightarrow> Inl e
           | Inr piece \<Rightarrow>
               if truthy piece
               then Inr (board[7 - row := (board ! (7 - row))[col := the piece]])
               else Inr board))"

text \<open>The body of the \<open>try\<close> block. The classifier is the method the object carries.\<close>

definition position_fen_body ::
  "(ndarray \<Rightarrow> py_exc + string option) \<Rightarrow> ndarray \<Rightarrow> py_exc + string"
where
  "position_fen_body classify board_image =
     (case shape2 board_image of
        Inl e \<Rightarrow> Inl e
      | Inr (height, width) \<Rightarrow>
          (let square_size = height div 8;
               board = replicate 8 (replicate 8 '' '')
           in case for_each
                     (\<lambda>row. for_each (scan_square classify board_image square_size row) [0..<8])
                     [0..<8] board of
                Inl e \<Rightarrow> Inl e
              | Inr board' \<Rightarrow> board_to_fen board'))"

definition start_fen :: string where
  "start_fen = ''rnbqkbnr/pppppppp/8/8/8/8/PPPPPPPP/RNBQKBNR w KQkq - 0 1''"

text \<open>
  \<open>get_position_fen\<close> returns the lines it printed and the string it returned; it has
  no exceptional result, since the \<open>except Exception\<close> clause returns a string.
\<close>

definition get_position_fen ::
  "(ndarray \<Rightarrow> py_exc + string option) \<Rightarrow> ndarray \<Rightarrow> string list \<times> string"
where
  "get_position_fen classify board_image =
     (case position_fen_body classify board_image of
        Inl e \<Rightarrow> ([''Error in position extraction: '' @ exc_str e], start_fen)
      | Inr fen \<Rightarrow> ([], fen))"


text \<open>The labels the reference classifier returns, and the boards built from them.\<close>

definition reference_labels :: "string set" where
  "reference_labels = {'' '', ''P'', ''p''}"

definition reference_grid :: "board \<Rightarrow> bool" where
  "reference_grid b = (is_grid8 b \<and> list_all (list_all (\<lambda>c. c \<in> reference_labels)) b)"

section \<open>board_detector.py: detect_board\<close>

text \<open>
  \<open>int(np.linalg.norm(q - p))\<close> for two points with integer coordinates: the integer
  part of the square root of the squared distance, computed on integers.
\<close>

definition floor_sqrt :: "nat \<Rightarrow> nat" where
  "floor_sqrt n = length (filter (\<lambda>k. k * k \<le> n) [1..<Suc n])"

definition int_norm :: "point \<Rightarrow> point \<Rightarrow> nat" where
  "int_norm p q =
     floor_sqrt (nat ((fst q - fst p) * (fst q - fst p) + (snd q - snd p) * (snd q - snd p)))"

text \<open>
  Lines 73 to 109: the perspective transform for an accepted quadrilateral \<open>approx\<close> of four
  points. Python's \<open>sorted\<close> and \<open>list.sort\<close> are stable, as \<open>sort_key\<close> is.
  \<open>int(max(a, b))\<close> is written \<open>max (int a) (int b)\<close>, the integer part being monotone.
\<close>

definition rectify :: "cv2_lib \<Rightarrow> ndarray \<Rightarrow> point list \<Rightarrow> py_exc + ndarray" where
  "rectify cv img approx =
     (let corners = sort_key (\<lambda>p. fst p + snd p) approx;
          top_left = corners ! 0;
          bottom_right = corners ! 3;
          remaining = sort_key (\<lambda>p. snd p - fst p) [corners ! 1, corners ! 2];
          top_right = remaining ! 0;
          bottom_left = remaining ! 1;
          src_pts = [top_left, top_right, bottom_right, bottom_left];
          width = max (int_norm top_left top_right) (int_norm bottom_left bottom_right);
          height = max (int_norm top_left bottom_left) (int_norm top_right bottom_right);
          square_size = max width height;
          dst_pts = [(0, 0), (int square_size - 1, 0),
                     (int square_size - 1, int square_size - 1), (0, int square_size - 1)]
      in case getPerspectiveTransform cv src_pts dst_pts of
           Inl e \<Rightarrow> Inl e
         | Inr M \<Rightarrow> warpPerspective cv img M (square_size, square_size))"

text \<open>
  The loop \<open>for contour in contours\<close>. \<open>min_board_size\<close> is the attribute set to 200 in
  \<open>__init__\<close>. The tolerance \<open>0.02 * perimeter\<close> is passed as the exact product.
\<close>

fun scan_contours ::
  "cv2_lib \<Rightarrow> nat \<Rightarrow> ndarray \<Rightarrow> contour list \<Rightarrow> py_exc + ndarray option"
where
  "scan_contours cv min_board_size img [] = Inr None"
| "scan_contours cv min_board_size img (contour # rest) =
     (case arcLength cv contour of
        Inl e \<Rightarrow> Inl e
      | Inr perimeter \<Rightarrow>
          (case approxPolyDP cv contour (2 / 100 * perimeter) of
             Inl e \<Rightarrow> Inl e
           | Inr approx \<Rightarrow>
               if length approx = 4 then
                 (case contourArea cv contour of
                    Inl e \<Rightarrow> Inl e
                  | Inr area \<Rightarrow>
                      if area > of_nat (min_board_size * min_board_size) then
                        (case rectify cv img approx of
                           Inl e \<Rightarrow> Inl e
                         | Inr warped \<Rightarrow> Inr (Some warped))
                      else scan_contours cv min_board_size img rest)
               else scan_contours cv min_board_size img rest))"

text \<open>The statements before the loop: grayscale, threshold, contours (\<open>img\<close> is the argument \<open>image\<close>).\<close>

definition board_contours :: "cv2_lib \<Rightarrow> ndarray \<Rightarrow> py_exc + contour list" where
  "board_contours cv img =
     (case ndim img of
        Inl e \<Rightarrow> Inl e
      | Inr n \<Rightarrow>
          (case (if n = 3 then cvtColor_BGR2GRAY cv img else Inr img) of
             Inl e \<Rightarrow> Inl e
           | Inr gray \<Rightarrow>
               (case adaptiveThreshold cv gray of
                  Inl e \<Rightarrow> Inl e
                | Inr binary \<Rightarrow> findContours cv binary)))"

text \<open>\<open>detect_board\<close>: \<open>Inr None\<close> is the returned \<open>None\<close>, "no valid board found".\<close>

definition detect_board :: "cv2_lib \<Rightarrow> nat \<Rightarrow> ndarray \<Rightarrow> py_exc + ndarray option" where
  "detect_board cv min_board_size img =
     (case board_contours cv img of
        Inl e \<Rightarrow> Inl e
      | Inr contours \<Rightarrow> scan_contours cv min_board_size img contours)"

definition default_min_board_size :: nat where
  "default_min_board_size = 200"

text \<open>A contour qualifies when the \<open>if\<close> of line 72 accepts it.\<close>

definition qualifies :: "cv2_lib \<Rightarrow> nat \<Rightarrow> contour \<Rightarrow> bool" where
  "qualifies cv min_board_size contour =
     (case arcLength cv contour of
        Inl e \<Rightarrow> False
      | Inr perimeter \<Rightarrow>
          (case approxPolyDP cv contour (2 / 100 * perimeter) of
             Inl e \<Rightarrow> False
           | Inr approx \<Rightarrow>
               length approx = 4 \<and>
               (case contourArea cv contour of
                  Inl e \<Rightarrow> False
                | Inr area \<Rightarrow> area > of_nat (min_board_size * min_board_size))))"

text \<open>The library calls of one loop iteration return, whatever they return.\<close>

definition measurable :: "cv2_lib \<Rightarrow> contour \<Rightarrow> bool" where
  "measurable cv contour =
     (case arcLength cv contour of
        Inl e \<Rightarrow> False
      | Inr perimeter \<Rightarrow>
          (case approxPolyDP cv contour (2 / 100 * perimeter) of
             Inl e \<Rightarrow> False
           | Inr approx \<Rightarrow>
               length approx = 4 \<longrightarrow> (case contourArea cv contour of Inl e \<Rightarrow> False | Inr area \<Rightarrow> True)))"


section \<open>The chess library and the engine process\<close>

text \<open>
  The repository drives an external chess library. Its pure part (positions, moves, the
  rules) and its engine part (the process behind \<open>SimpleEngine\<close>) are parameters; \<open>'b\<close> is
  the library's board and \<open>'mv\<close> its move. The engine is a process with a history: each
  engine function receives the calls made so far, so it may answer two equal calls
  differently.
\<close>

datatype piece_type = PAWN | KNIGHT | BISHOP | ROOK | QUEEN | KING

record piece =
  piece_type :: piece_type
  color :: bool

record ('b, 'mv) chess_lib =
  chess_Board :: "string \<Rightarrow> py_exc + 'b"
  from_uci :: "string \<Rightarrow> py_exc + 'mv"
  uci :: "'mv \<Rightarrow> string"
  from_square :: "'mv \<Rightarrow> nat"
  to_square :: "'mv \<Rightarrow> nat"
  promotion :: "'mv \<Rightarrow> piece_type option"
  piece_at :: "'b \<Rightarrow> nat \<Rightarrow> piece option"
  is_capture :: "'b \<Rightarrow> 'mv \<Rightarrow> bool"
  is_castling :: "'b \<Rightarrow> 'mv \<Rightarrow> bool"
  push :: "'b \<Rightarrow> 'mv \<Rightarrow> 'b"
  is_check :: "'b \<Rightarrow> bool"
  is_checkmate :: "'b \<Rightarrow> bool"
  square_name :: "nat \<Rightarrow> string"
  square_file :: "nat \<Rightarrow> nat"

text \<open>
  The score of an analysis. The library stores under \<open>info["score"]\<close> a \<open>PovScore\<close>: a
  score (centipawns, a mate distance, or mate given) relative to one side, with that side.
  A \<open>PovScore\<close> has the method \<open>is_mate()\<close>; the method \<open>mate()\<close> and the attribute \<open>cp\<close>
  belong to the score it wraps, not to the \<open>PovScore\<close>, so reading either on the
  \<open>PovScore\<close> raises AttributeError.
\<close>

datatype score = Cp int | Mate int | MateGiven

record pov_score =
  relative :: score
  turn :: bool

definition is_mate :: "pov_score \<Rightarrow> bool" where
  "is_mate s = (case relative s of Cp c \<Rightarrow> False | Mate n \<Rightarrow> True | MateGiven \<Rightarrow> True)"

definition pov_mate :: "pov_score \<Rightarrow> py_exc + int" where
  "pov_mate s = Inl (AttributeError ''PovScore object has no attribute mate'')"

definition pov_cp :: "pov_score \<Rightarrow> py_exc + int option" where
  "pov_cp s = Inl (AttributeError ''PovScore object has no attribute cp'')"

text \<open>The \<open>info\<close> dictionary: a key that is absent is \<open>None\<close>.\<close>

record 'mv info =
  info_pv :: "'mv list option"
  info_score :: "pov_score option"
  info_depth :: "int option"

record limit =
  limit_depth :: int
  limit_time :: rat

text \<open>A call made to the engine part of the library, with the process handle it was made on.\<close>

datatype event = Popen string | Configure nat | Analyse nat | Play nat | Quit nat

text \<open>
  \<open>play\<close> returns \<open>result.move\<close>; \<open>None\<close> stands for a move that is \<open>None\<close> or false.
\<close>

record ('b, 'mv) engine_lib =
  popen_uci :: "event list \<Rightarrow> string \<Rightarrow> py_exc + nat"
  configure :: "event list \<Rightarrow> nat \<Rightarrow> (string \<times> nat) list \<Rightarrow> py_exc + unit"
  analyse :: "event list \<Rightarrow> nat \<Rightarrow> 'b \<Rightarrow> limit \<Rightarrow> py_exc + 'mv info"
  play :: "event list \<Rightarrow> nat \<Rightarrow> 'b \<Rightarrow> limit \<Rightarrow> py_exc + 'mv option"
  engine_quit :: "event list \<Rightarrow> nat \<Rightarrow> py_exc + unit"

section \<open>stockfish_engine.py\<close>

text \<open>
  The object's state: the path, the attribute \<open>engine\<close> (\<open>None\<close> or a process handle),
  the calls made to the engine library so far, and the lines printed. The lock is
  not modelled: one thread runs.
\<close>

record session =
  stockfish_path :: string
  engine :: "nat option"
  trace :: "event list"
  printed :: "string list"

definition init_engine :: "('b, 'mv) engine_lib \<Rightarrow> session \<Rightarrow> session" where
  "init_engine lib s =
     (let s1 = s\<lparr>trace := trace s @ [Popen (stockfish_path s)]\<rparr>
      in case popen_uci lib (trace s) (stockfish_path s) of
           Inl e \<Rightarrow> s1\<lparr>engine := None,
                       printed := printed s1 @ [''Error initializing Stockfish: '' @ exc_str e]\<rparr>
         | Inr h \<Rightarrow>
             (let s2 = s1\<lparr>engine := Some h, trace := trace s1 @ [Configure h]\<rparr>
              in case configure lib (trace s1) h [(''Threads'', 2), (''Hash'', 32)] of
                   Inl e \<Rightarrow> s2\<lparr>engine := None,
                               printed := printed s2 @ [''Error initializing Stockfish: '' @ exc_str e]\<rparr>
                 | Inr u \<Rightarrow> s2))"

text \<open>\<open>__init__\<close>.\<close>

definition new_session :: "('b, 'mv) engine_lib \<Rightarrow> string \<Rightarrow> session" where
  "new_session lib path =
     init_engine lib \<lparr>stockfish_path = path, engine = None, trace = [], printed = []\<rparr>"

text \<open>
  \<open>f"{cp/100:.2f}"\<close> for an int \<open>cp\<close>: the quotient has two decimals, and the float
  nearest to it prints as the quotient itself while \<open>|cp| < 10^15\<close>; beyond that the
  rounding of floats, which is not modelled, decides.
\<close>

definition format_2f_hundredths :: "int \<Rightarrow> string" where
  "format_2f_hundredths c =
     (let a = nat \<bar>c\<bar>
      in (if c < 0 then ''-'' else []) @ str_nat (a div 100) @ ''.'' @
         [digit_char (a mod 100 div 10), digit_char (a mod 10)])"

text \<open>The two format expressions of lines 149 and 153.\<close>

definition mate_text :: "int \<Rightarrow> string" where
  "mate_text mate_in =
     (if mate_in > 0 then ''Mate in '' @ str_int mate_in else ''Mated in '' @ str_int (- mate_in))"

definition cp_text :: "int option \<Rightarrow> string" where
  "cp_text c = (case c of Some v \<Rightarrow> format_2f_hundredths v | None \<Rightarrow> ''0.00'')"

text \<open>
  Lines 143 to 153: the score. \<open>score_obj.mate()\<close> and \<open>score_obj.cp\<close> are read on the
  object stored under \<open>info["score"]\<close>.
\<close>

definition format_score :: "pov_score option \<Rightarrow> py_exc + string option" where
  "format_score sc =
     (case sc of
        None \<Rightarrow> Inr None
      | Some score_obj \<Rightarrow>
          if is_mate score_obj then
            (case pov_mate score_obj of
               Inl e \<Rightarrow> Inl e
             | Inr mate_in \<Rightarrow> Inr (Some (mate_text mate_in)))
          else
            (case pov_cp score_obj of
               Inl e \<Rightarrow> Inl e
             | Inr c \<Rightarrow> Inr (Some (cp_text c))))"

text \<open>The dictionary \<open>get_best_move\<close> returns: the one with key \<open>error\<close>, or the one with four keys.\<close>

datatype engine_result =
    Failure string
  | Analysis (result_best_move: "string option") (result_score: "string option")
      (result_depth: int) (result_pv: "string list")

text \<open>The \<open>try\<close> block of \<open>get_best_move\<close>, on a session whose engine is the handle \<open>h\<close>.\<close>

definition analysis_body ::
  "('b, 'mv) engine_lib \<Rightarrow> ('b, 'mv) chess_lib \<Rightarrow> session \<Rightarrow> nat \<Rightarrow> string \<Rightarrow> int \<Rightarrow> rat \<Rightarrow>
   (py_exc + engine_result) \<times> session"
where
  "analysis_body lib ch s h fen dep time_limit =
     (case chess_Board ch fen of
        Inl e \<Rightarrow> (Inl e, s)
      | Inr board \<Rightarrow>
          (let lim = \<lparr>limit_depth = dep, limit_time = time_limit\<rparr>;
               s1 = s\<lparr>trace := trace s @ [Analyse h]\<rparr>
           in case analyse lib (trace s) h board lim of
                Inl e \<Rightarrow> (Inl e, s1)
              | Inr info \<Rightarrow>
                  (let pv = (case info_pv info of None \<Rightarrow> [] | Some ms \<Rightarrow> map (uci ch) ms);
                       s2 = s1\<lparr>trace := trace s1 @ [Play h]\<rparr>
                   in case play lib (trace s1) h board lim of
                        Inl e \<Rightarrow> (Inl e, s2)
                      | Inr move \<Rightarrow>
                          (let best_move = map_option (uci ch) move
                           in case format_score (info_score info) of
                                Inl e \<Rightarrow> (Inl e, s2)
                              | Inr score \<Rightarrow>
                                  (Inr (Analysis best_move score
                                          (case info_depth info of None \<Rightarrow> 0 | Some d \<Rightarrow> d) pv),
                                   s2)))))"

text \<open>
  The first statement of \<open>get_best_move\<close>. \<open>_init_engine\<close> catches every exception itself,
  so the \<open>except\<close> clause around this call is never entered.
\<close>

definition ensure_engine :: "('b, 'mv) engine_lib \<Rightarrow> session \<Rightarrow> session" where
  "ensure_engine lib s = (if engine s = None then init_engine lib s else s)"

definition get_best_move ::
  "('b, 'mv) engine_lib \<Rightarrow> ('b, 'mv) chess_lib \<Rightarrow> session \<Rightarrow> string \<Rightarrow> int \<Rightarrow> rat \<Rightarrow>
   engine_result \<times> session"
where
  "get_best_move lib ch s fen dep time_limit =
     (let s0 = ensure_engine lib s
      in case engine s0 of
           None \<Rightarrow> (Failure ''Could not initialize engine'', s0)
         | Some h \<Rightarrow>
             (case analysis_body lib ch s0 h fen dep time_limit of
                (Inl e, s1) \<Rightarrow>
                  (Failure (''Analysis error: '' @ exc_str e),
                   s1\<lparr>printed := printed s1 @ [''Analysis error: '' @ exc_str e]\<rparr>)
              | (Inr r, s1) \<Rightarrow> (r, s1)))"

text \<open>\<open>quit\<close>: the exception it raises, if any, and the session after it.\<close>

definition quit :: "('b, 'mv) engine_lib \<Rightarrow> session \<Rightarrow> py_exc option \<times> session" where
  "quit lib s =
     (case engine s of
        None \<Rightarrow> (None, s)
      | Some h \<Rightarrow>
          (let s1 = s\<lparr>trace := trace s @ [Quit h]\<rparr>
           in case engine_quit lib (trace s) h of
                Inl e \<Rightarrow> (Some e, s1)
              | Inr u \<Rightarrow> (None, s1\<lparr>engine := None\<rparr>)))"

text \<open>
  The number of processes the calls of a trace started: its calls of \<open>popen_uci\<close> that
  returned, each judged on the calls before it.
\<close>

fun spawns :: "('b, 'mv) engine_lib \<Rightarrow> event list \<Rightarrow> event list \<Rightarrow> nat" where
  "spawns lib earlier [] = 0"
| "spawns lib earlier (ev # evs) =
     (case ev of
        Popen path \<Rightarrow> (case popen_uci lib earlier path of Inl e \<Rightarrow> 0 | Inr h \<Rightarrow> 1)
      | _ \<Rightarrow> 0) + spawns lib (earlier @ [ev]) evs"

section \<open>chess_analyzer.py\<close>

text \<open>The dictionary \<open>analyze_position\<close> returns.\<close>

datatype analyzer_result =
    Invalid string
  | Report (report_fen: string) (report_best_move: "string option")
      (report_score: "string option") (report_depth: "int option") (report_pv: "string list")

text \<open>\<open>result.get(key)\<close> and \<open>result.get("pv", [])\<close> on the engine's dictionary.\<close>

fun get_key_best_move :: "engine_result \<Rightarrow> string option" where
  "get_key_best_move (Failure m) = None"
| "get_key_best_move (Analysis b sc d p) = b"

fun get_key_score :: "engine_result \<Rightarrow> string option" where
  "get_key_score (Failure m) = None"
| "get_key_score (Analysis b sc d p) = sc"

fun get_key_depth :: "engine_result \<Rightarrow> int option" where
  "get_key_depth (Failure m) = None"
| "get_key_depth (Analysis b sc d p) = Some d"

fun get_key_pv :: "engine_result \<Rightarrow> string list" where
  "get_key_pv (Failure m) = []"
| "get_key_pv (Analysis b sc d p) = p"

text \<open>
  \<open>analyze_position\<close>, on the session the analyzer owns. Only a ValueError of the
  library's parser is caught.
\<close>

definition analyze_position ::
  "('b, 'mv) engine_lib \<Rightarrow> ('b, 'mv) chess_lib \<Rightarrow> session \<Rightarrow> string \<Rightarrow> int \<Rightarrow> rat \<Rightarrow>
   (py_exc + analyzer_result) \<times> session"
where
  "analyze_position lib ch s fen dep time_limit =
     (case chess_Board ch fen of
        Inl (ValueError m) \<Rightarrow> (Inr (Invalid ''Invalid FEN string''), s)
      | Inl e \<Rightarrow> (Inl e, s)
      | Inr board \<Rightarrow>
          (case get_best_move lib ch s fen dep time_limit of
             (result, s') \<Rightarrow>
               (Inr (Report fen (get_key_best_move result) (get_key_score result)
                       (get_key_depth result) (get_key_pv result)),
                s')))"

text \<open>The dictionary \<open>piece_names\<close> and \<open>piece_names.get(t, "piece")\<close>.\<close>

definition piece_names :: "piece_type \<rightharpoonup> string" where
  "piece_names =
     [PAWN \<mapsto> ''pawn'', KNIGHT \<mapsto> ''knight'', BISHOP \<mapsto> ''bishop'',
      ROOK \<mapsto> ''rook'', QUEEN \<mapsto> ''queen'', KING \<mapsto> ''king'']"

definition piece_name_of :: "piece_type \<Rightarrow> string" where
  "piece_name_of t = (case piece_names t of None \<Rightarrow> ''piece'' | Some n \<Rightarrow> n)"

definition color_name :: "bool \<Rightarrow> string" where
  "color_name white = (if white then ''white'' else ''black'')"

text \<open>The \<open>try\<close> block of \<open>format_move_with_pieces\<close>.\<close>

definition format_move_body :: "('b, 'mv) chess_lib \<Rightarrow> string \<Rightarrow> string \<Rightarrow> py_exc + string" where
  "format_move_body ch fen move_uci =
     (case chess_Board ch fen of
        Inl e \<Rightarrow> Inl e
      | Inr board \<Rightarrow>
          (case from_uci ch move_uci of
             Inl e \<Rightarrow> Inl e
           | Inr move \<Rightarrow>
               (case piece_at ch board (from_square ch move) of
                  None \<Rightarrow>
                    Inr (''Move from '' @ square_name ch (from_square ch move) @ '' to '' @
                         square_name ch (to_square ch move))
                | Some piece \<Rightarrow>
                    (let piece_name = piece_name_of (piece_type piece);
                         color_text = color_name (color piece);
                         capture =
                           (if is_capture ch board move then
                              (case piece_at ch board (to_square ch move) of
                                 None \<Rightarrow> []
                               | Some captured_piece \<Rightarrow>
                                   '', capturing the '' @ color_name (color captured_piece) @ '' '' @
                                   piece_name_of (piece_type captured_piece))
                            else []);
                         promotion_text =
                           (case promotion ch move of
                              None \<Rightarrow> []
                            | Some t \<Rightarrow> '', promoting to a '' @ piece_name_of t);
                         special_move =
                           (if is_castling ch board move then
                              (if square_file ch (to_square ch move) > square_file ch (from_square ch move)
                               then '' (kingside castling)'' else '' (queenside castling)'')
                            else []);
                         board' = push ch board move;
                         check_status =
                           (if is_check ch board' then
                              (if is_checkmate ch board' then '', checkmate'' else '', check'')
                            else [])
                     in Inr (color_text @ '' '' @ piece_name @ '' from '' @
                             square_name ch (from_square ch move) @ '' to '' @
                             square_name ch (to_square ch move) @
                             capture @ promotion_text @ special_move @ check_status)))))"

text \<open>\<open>format_move_with_pieces\<close>; a move that is \<open>None\<close> is \<open>None\<close> here.\<close>

definition format_move_with_pieces ::
  "('b, 'mv) chess_lib \<Rightarrow> string \<Rightarrow> string option \<Rightarrow> string"
where
  "format_move_with_pieces ch fen move_uci =
     (case move_uci of
        None \<Rightarrow> ''No move available''
      | Some m \<Rightarrow>
          if m = [] \<or> length m < 4 then ''No move available''
          else (case format_move_body ch fen m of
                  Inl e \<Rightarrow> ''Move '' @ m
                | Inr description \<Rightarrow> description))"


section \<open>Reading a score and a description back\<close>

text \<open>
  The repository never parses the strings it produces. The readers below follow the
  wording of the specification: a mate score names a signed distance, positive when the
  side to move mates; a centipawn score is a decimal number with exactly two decimals.
\<close>

definition read_nat :: "string \<Rightarrow> nat option" where
  "read_nat s =
     (if s \<noteq> [] \<and> list_all is_digit s
      then Some (foldl (\<lambda>a c. 10 * a + digit_val c) 0 s) else None)"

fun strip_prefix :: "string \<Rightarrow> string \<Rightarrow> string option" where
  "strip_prefix [] s = Some s"
| "strip_prefix (p # ps) [] = None"
| "strip_prefix (p # ps) (c # cs) = (if p = c then strip_prefix ps cs else None)"

definition signed_mate_distance :: "string \<Rightarrow> int option" where
  "signed_mate_distance s =
     (case strip_prefix ''Mate in '' s of
        Some r \<Rightarrow> map_option int (read_nat r)
      | None \<Rightarrow>
          (case strip_prefix ''Mated in '' s of
             Some r \<Rightarrow> map_option (\<lambda>n. - int n) (read_nat r)
           | None \<Rightarrow> None))"

definition read_hundredths :: "string \<Rightarrow> rat option" where
  "read_hundredths s =
     (let negative = (s \<noteq> [] \<and> hd s = CHR ''-'');
          body = (if negative then tl s else s);
          whole = takeWhile is_digit body;
          rest = dropWhile is_digit body
      in case (read_nat whole, rest) of
           (Some n, [dot, d1, d2]) \<Rightarrow>
             if dot = CHR ''.'' \<and> is_digit d1 \<and> is_digit d2 then
               Some ((if negative then - 1 else 1) *
                     (of_nat n + of_nat (10 * digit_val d1 + digit_val d2) / 100))
             else None
         | _ \<Rightarrow> None)"

text \<open>A description names a text when the text occurs in it.\<close>

fun occurs_in :: "string \<Rightarrow> string \<Rightarrow> bool" where
  "occurs_in raw [] = (raw = [])"
| "occurs_in raw (c # cs) = (take (length raw) (c # cs) = raw \<or> occurs_in raw cs)"

section \<open>Concrete inputs\<close>

text \<open>The grid of the initial position, first row first.\<close>

definition initial_grid :: board where
  "initial_grid =
     [[''r'', ''n'', ''b'', ''q'', ''k'', ''b'', ''n'', ''r''],
      replicate 8 ''p'',
      replicate 8 '' '', replicate 8 '' '', replicate 8 '' '', replicate 8 '' '',
      replicate 8 ''P'',
      [''R'', ''N'', ''B'', ''Q'', ''K'', ''B'', ''N'', ''R'']]"

text \<open>An OpenCV whose every call raises, for inputs that never reach it.\<close>

definition cv_error :: py_exc where
  "cv_error = LibraryError ''cv2.error''"

definition cv_rejecting :: cv2_lib where
  "cv_rejecting =
     \<lparr>cvtColor_BGR2GRAY = (\<lambda>a. Inl cv_error),
      adaptiveThreshold = (\<lambda>a. Inl cv_error),
      findContours = (\<lambda>a. Inl cv_error),
      arcLength = (\<lambda>c. Inl cv_error),
      approxPolyDP = (\<lambda>c eps. Inl cv_error),
      contourArea = (\<lambda>c. Inl cv_error),
      getPerspectiveTransform = (\<lambda>src dst. Inl cv_error),
      warpPerspective = (\<lambda>a M size. Inl cv_error)\<rparr>"

text \<open>
  An 8x8 grayscale image, one pixel per square: the top row black, the other rows of
  luminance 128.
\<close>

definition top_dark_image :: ndarray where
  "top_dark_image = Gray (replicate 8 0 # replicate 7 (replicate 8 128))"

text \<open>A 2x1 grayscale square of mean luminance 150, and a one-pixel square of luminance 90.\<close>

definition mid_square :: ndarray where
  "mid_square = Gray [[100, 200]]"

definition square_90 :: ndarray where
  "square_90 = Gray [[90]]"

text \<open>A one-pixel colour image: its squares are empty colour arrays.\<close>

definition color_pixel :: ndarray where
  "color_pixel = Color [[(90, 90, 90)]]"

text \<open>
  An OpenCV that finds one contour, a square of side 10: perimeter 40, area 100, its own
  polygon approximation.
\<close>

definition cv_small_square :: cv2_lib where
  "cv_small_square =
     \<lparr>cvtColor_BGR2GRAY = (\<lambda>a. Inr a),
      adaptiveThreshold = (\<lambda>a. Inr a),
      findContours = (\<lambda>a. Inr [[(0, 0), (10, 0), (10, 10), (0, 10)]]),
      arcLength = (\<lambda>c. Inr 40),
      approxPolyDP = (\<lambda>c eps. Inr c),
      contourArea = (\<lambda>c. Inr 100),
      getPerspectiveTransform = (\<lambda>src dst. Inr []),
      warpPerspective = (\<lambda>a M size. Inr a)\<rparr>"

text \<open>
  A small stand-in for the chess library, with notation strings as boards and coordinate
  strings as moves. It accepts a notation whose placement has seven separators and a move
  of four or five characters; pieces are not modelled.
\<close>

definition toy_chess :: "(string, string) chess_lib" where
  "toy_chess =
     \<lparr>chess_Board =
        (\<lambda>fen. if length (filter (\<lambda>c. c = CHR ''/'') (placement fen)) = 7 then Inr fen
               else Inl (ValueError ''invalid fen'')),
      from_uci =
        (\<lambda>m. if length m = 4 \<or> length m = 5 then Inr m
             else Inl (ValueError ''invalid uci'')),
      uci = (\<lambda>m. m),
      from_square = (\<lambda>m. 0),
      to_square = (\<lambda>m. 0),
      promotion = (\<lambda>m. None),
      piece_at = (\<lambda>b sq. None),
      is_capture = (\<lambda>b m. False),
      is_castling = (\<lambda>b m. False),
      push = (\<lambda>b m. b),
      is_check = (\<lambda>b. False),
      is_checkmate = (\<lambda>b. False),
      square_name = (\<lambda>sq. ''a1''),
      square_file = (\<lambda>sq. 0)\<rparr>"

text \<open>
  A stand-in for the engine. Every call returns; a new process gets the number of calls
  made so far as its handle. The analysis of the initial position reports the variation
  e2e4 e7e5 at 35 centipawns, every other analysis a mate against the side to move in
  three; the separate search for the move to play answers d2d4.
\<close>

definition toy_engine :: "(string, string) engine_lib" where
  "toy_engine =
     \<lparr>popen_uci = (\<lambda>tr path. Inr (length tr)),
      configure = (\<lambda>tr h opts. Inr ()),
      analyse =
        (\<lambda>tr h b lim.
           if b = start_fen then
             Inr \<lparr>info_pv = Some [''e2e4'', ''e7e5''],
                  info_score = Some \<lparr>relative = Cp 35, turn = True\<rparr>,
                  info_depth = Some 18\<rparr>
           else
             Inr \<lparr>info_pv = Some [''h2h3''],
                  info_score = Some \<lparr>relative = Mate (- 3), turn = True\<rparr>,
                  info_depth = Some 18\<rparr>),
      play = (\<lambda>tr h b lim. Inr (Some ''d2d4'')),
      engine_quit = (\<lambda>tr h. Inr ())\<rparr>"

text \<open>The session \<open>__init__\<close> builds on that engine, and the same session after \<open>quit\<close>.\<close>

definition ready_session :: session where
  "ready_session = new_session toy_engine ''stockfish''"

definition closed_session :: session where
  "closed_session = snd (quit toy_engine ready_session)"

definition flipped_fen :: string where
  "flipped_fen = ''8/8/8/8/8/8/8/pppppppp w KQkq - 0 1''"

text \<open>The same engine, with an analysis that reports a variation and a depth but no score.\<close>

definition toy_engine_unscored :: "(string, string) engine_lib" where
  "toy_engine_unscored =
     toy_engine
       \<lparr>analyse :=
          (\<lambda>tr h b lim.
             Inr \<lparr>info_pv = Some [''e2e4'', ''e7e5''], info_score = None,
                  info_depth = Some 18\<rparr>)\<rparr>"

definition unscored_session :: session where
  "unscored_session = new_session toy_engine_unscored ''stockfish''"

text \<open>
  A condition every legal position meets, from the rules of chess: the placement holds
  one white king and one black king.
\<close>

definition has_both_kings :: "string \<Rightarrow> bool" where
  "has_both_kings fen =
     (length (filter (\<lambda>c. c = CHR ''K'') (placement fen)) = 1 \<and>
      length (filter (\<lambda>c. c = CHR ''k'') (placement fen)) = 1)"

text \<open>
  An OpenCV that, as the library does, refuses an array without entries in the colour
  conversion and in the threshold, and finds no contour in one; on other arrays it is
  \<open>cv_small_square\<close>.
\<close>

definition without_entries :: "ndarray \<Rightarrow> bool" where
  "without_entries a = (case entries a of Inl e \<Rightarrow> False | Inr xs \<Rightarrow> xs = [])"

definition cv_strict :: cv2_lib where
  "cv_strict =
     cv_small_square
       \<lparr>cvtColor_BGR2GRAY := (\<lambda>a. if without_entries a then Inl cv_error else Inr a),
        adaptiveThreshold := (\<lambda>a. if without_entries a then Inl cv_error else Inr a),
        findContours :=
          (\<lambda>a. if without_entries a then Inr []
               else Inr [[(0, 0), (10, 0), (10, 10), (0, 10)]])\<rparr>"

section \<open>Properties of the serialiser\<close>

lemma str_nat_digit: "n < 10 \<Longrightarrow> str_nat n = [digit_char n]"
  by (simp add: str_nat.simps)

lemma digit_char_table:
  "list_all (\<lambda>n. is_digit (digit_char n) \<and> digit_val (digit_char n) = n \<and>
                  digit_char n \<noteq> CHR ''/'' \<and> digit_char n \<noteq> CHR '' '' \<and>
                  digit_char n \<noteq> CHR ''.'' \<and> digit_char n \<noteq> CHR ''-'')
            [0..<10]"
  by (simp add: upt_rec digit_char_def is_digit_def digit_val_def)

lemma digit_char_props:
  assumes "n < 10"
  shows "is_digit (digit_char n)" and "digit_val (digit_char n) = n"
    and "digit_char n \<noteq> CHR ''/''" and "digit_char n \<noteq> CHR '' ''"
    and "digit_char n \<noteq> CHR ''.''" and "digit_char n \<noteq> CHR ''-''"
  using digit_char_table assms unfolding list_all_iff by auto

lemma str_nat_chars:
  "n < 10 \<Longrightarrow> CHR ''/'' \<notin> set (str_nat n) \<and> CHR '' '' \<notin> set (str_nat n)"
  using digit_char_props(3,4) [of n] by (auto simp: str_nat_digit)

lemma fen_cols_text:
  "row < length board \<Longrightarrow> \<forall>c\<in>set cols. c < length (board ! row) \<Longrightarrow>
   \<exists>fen' e'. fen_cols board row cols (fen, e) = Inr (fen', e') \<and>
     (if e' > 0 then fen' @ str_nat e' else fen') =
       fen @ rank_text e (map (\<lambda>c. board ! row ! c) cols)"
proof (induction cols arbitrary: fen e)
  case Nil
  then show ?case by simp
next
  case (Cons col cols)
  show ?case
  proof (cases "board ! row ! col = '' ''")
    case True
    from Cons.IH [of fen "e + 1"] Cons.prems True show ?thesis by simp
  next
    case False
    show ?thesis
    proof (cases "e > 0")
      case True
      from Cons.IH [of "(fen @ str_nat e) @ board ! row ! col" 0] Cons.prems False True
      show ?thesis by (simp add: Let_def)
    next
      case e0: False
      from Cons.IH [of "fen @ board ! row ! col" 0] Cons.prems False e0
      show ?thesis by (simp add: Let_def)
    qed
  qed
qed

lemma fen_rows_text:
  "\<forall>r\<in>set rows. r < length board \<and> length (board ! r) = 8 \<Longrightarrow>
   fen_rows board rows fen =
     Inr (fen @ concat (map (\<lambda>r. rank_text 0 (board ! r) @ rank_sep r) rows))"
proof (induction rows arbitrary: fen)
  case Nil
  then show ?case by simp
next
  case (Cons row rows)
  then have r: "row < length board" and l: "length (board ! row) = 8" by simp_all
  have m: "map (\<lambda>c. board ! row ! c) [0..<8] = board ! row"
    using l map_nth [of "board ! row"] by simp
  from fen_cols_text [OF r, of "[0..<8]" fen 0] l m
  obtain fen' e' where
    c: "fen_cols board row [0..<8] (fen, 0) = Inr (fen', e')" and
    t: "(if e' > 0 then fen' @ str_nat e' else fen') = fen @ rank_text 0 (board ! row)"
    by auto
  have "fen_rows board (row # rows) fen =
        fen_rows board rows ((if e' > 0 then fen' @ str_nat e' else fen') @ rank_sep row)"
    using c by (simp add: Let_def rank_sep_def)
  also have "\<dots> = fen_rows board rows ((fen @ rank_text 0 (board ! row)) @ rank_sep row)"
    by (simp only: t)
  also have "\<dots> = Inr (((fen @ rank_text 0 (board ! row)) @ rank_sep row) @
                concat (map (\<lambda>r. rank_text 0 (board ! r) @ rank_sep r) rows))"
    using Cons.prems by (intro Cons.IH) simp
  finally show ?case by simp
qed

lemma label_cases:
  "c \<in> piece_labels \<Longrightarrow> c = '' '' \<or> (\<exists>ch. c = [ch] \<and> \<not> is_digit ch \<and> ch \<noteq> CHR ''/'' \<and> ch \<noteq> CHR '' '')"
  by (auto simp: piece_labels_def is_digit_def)

lemma rank_text_chars:
  "\<forall>c\<in>set cs. c \<in> piece_labels \<Longrightarrow> e + length cs < 10 \<Longrightarrow>
   CHR ''/'' \<notin> set (rank_text e cs) \<and> CHR '' '' \<notin> set (rank_text e cs)"
proof (induction cs arbitrary: e)
  case Nil
  then show ?case using str_nat_chars [of e] by simp
next
  case (Cons c cs)
  from Cons.prems label_cases [of c] consider "c = '' ''"
    | ch where "c = [ch]" "\<not> is_digit ch" "ch \<noteq> CHR ''/''" "ch \<noteq> CHR '' ''" by auto
  then show ?case
  proof cases
    case 1
    with Cons.IH [of "e + 1"] Cons.prems show ?thesis by simp
  next
    case 2
    with Cons.IH [of 0] Cons.prems str_nat_chars [of e] show ?thesis
      by auto
  qed
qed

lemma decode_rank_text:
  "\<forall>c\<in>set cs. c \<in> piece_labels \<Longrightarrow> e + length cs < 10 \<Longrightarrow>
   decode_rank (rank_text e cs) = replicate e '' '' @ cs"
proof (induction cs arbitrary: e)
  case Nil
  then show ?case by (simp add: str_nat_digit digit_char_props)
next
  case (Cons c cs)
  from Cons.prems label_cases [of c] consider "c = '' ''"
    | ch where "c = [ch]" "\<not> is_digit ch" "ch \<noteq> CHR ''/''" "ch \<noteq> CHR '' ''" by auto
  then show ?case
  proof cases
    case 1
    with Cons.IH [of "e + 1"] Cons.prems show ?thesis
      by (simp add: replicate_app_Cons_same)
  next
    case 2
    with Cons.IH [of 0] Cons.prems show ?thesis
      by (simp add: str_nat_digit digit_char_props)
  qed
qed

lemma split_on_none: "sep \<notin> set w \<Longrightarrow> split_on sep w = [w]"
  by (induction w) auto

lemma split_on_append:
  "sep \<notin> set w \<Longrightarrow> split_on sep (w @ sep # rest) = w # split_on sep rest"
  by (induction w) auto

lemma grid8_rows:
  "is_grid8 board \<Longrightarrow> \<exists>r0 r1 r2 r3 r4 r5 r6 r7. board = [r0, r1, r2, r3, r4, r5, r6, r7]"
  by (auto simp: is_grid8_def length_Suc_conv eval_nat_numeral)


lemma filter_sep_none: "sep \<notin> set w \<Longrightarrow> filter (\<lambda>c. c = sep) w = []"
  by (induction w) auto

lemma upt_8: "[0..<8] = [0, 1, 2, 3, 4, 5, 6, 7::nat]"
  by (simp add: upt_rec)

lemma placement_text:
  "CHR '' '' \<notin> set t \<Longrightarrow> placement (t @ '' w KQkq - 0 1'') = t"
  by (induction t) (auto simp: placement_def)

text \<open>
  Claim C2. For every 8x8 grid of piece labels, \<open>_board_to_fen\<close> returns a string whose
  placement field holds exactly seven \<open>/\<close> and reads back, digit by digit and letter by
  letter, as the grid that was serialised.
\<close>

theorem board_to_fen_round_trip:
  assumes grid: "is_grid8 board"
    and labels: "\<forall>r\<in>set board. \<forall>c\<in>set r. c \<in> piece_labels"
  shows "\<exists>fen. board_to_fen board = Inr fen \<and>
           length (filter (\<lambda>c. c = CHR ''/'') (placement fen)) = 7 \<and>
           decode_placement (placement fen) = board"
proof -
  from grid8_rows [OF grid] obtain r0 r1 r2 r3 r4 r5 r6 r7
    where b: "board = [r0, r1, r2, r3, r4, r5, r6, r7]" by blast
  have rows: "\<forall>r\<in>set [0..<8]. r < length board \<and> length (board ! r) = 8"
    using grid by (auto simp: is_grid8_def list_all_length)
  have ok: "CHR ''/'' \<notin> set (rank_text 0 r) \<and> CHR '' '' \<notin> set (rank_text 0 r) \<and>
            decode_rank (rank_text 0 r) = r" if "r \<in> set board" for r
  proof -
    from that grid have "length r = 8" by (auto simp: is_grid8_def list_all_iff)
    with that labels rank_text_chars [of r 0] decode_rank_text [of r 0]
    show ?thesis by simp
  qed
  let ?t = "rank_text 0 r0 @ ''/'' @ rank_text 0 r1 @ ''/'' @ rank_text 0 r2 @ ''/'' @
            rank_text 0 r3 @ ''/'' @ rank_text 0 r4 @ ''/'' @ rank_text 0 r5 @ ''/'' @
            rank_text 0 r6 @ ''/'' @ rank_text 0 r7"
  have tx: "fen_rows board [0..<8] '''' = Inr ?t"
    unfolding fen_rows_text [OF rows] by (simp add: upt_8 b rank_sep_def)
  then have fen: "board_to_fen board = Inr (?t @ '' w KQkq - 0 1'')"
    by (simp add: board_to_fen_def)
  have sp: "CHR '' '' \<notin> set ?t"
    using ok by (simp add: b)
  have pl: "placement (?t @ '' w KQkq - 0 1'') = ?t"
    by (rule placement_text [OF sp])
  have cnt: "length (filter (\<lambda>c. c = CHR ''/'') ?t) = 7"
    using ok by (simp add: b filter_sep_none)
  have dec: "decode_placement ?t = board"
    using ok by (simp add: b decode_placement_def split_on_append split_on_none)
  from fen pl cnt dec show ?thesis by simp
qed

theorem board_to_fen_round_trip_witness:
  "is_grid8 initial_grid \<and>
   list_all (list_all (\<lambda>c. c \<in> piece_labels)) initial_grid \<and>
   (\<exists>fen. board_to_fen initial_grid = Inr fen \<and>
      length (filter (\<lambda>c. c = CHR ''/'') (placement fen)) = 7 \<and>
      decode_placement (placement fen) = initial_grid)"
proof -
  have g: "is_grid8 initial_grid"
    by (simp add: initial_grid_def is_grid8_def)
  have l: "\<forall>r\<in>set initial_grid. \<forall>c\<in>set r. c \<in> piece_labels"
    by (simp add: initial_grid_def piece_labels_def)
  have l': "list_all (list_all (\<lambda>c. c \<in> piece_labels)) initial_grid"
    using l by (simp add: list_all_iff)
  from g l' board_to_fen_round_trip [OF g l] show ?thesis by blast
qed


section \<open>Properties of the square classifier\<close>

text \<open>
  Claim C9, as stated, at a square whose mean luminance is exactly 90: it lies in the band
  90 to 170 and is not below the lower bound, yet the label is the black pawn, not empty.
\<close>

theorem classifier_band_counterexample:
  "avg_brightness_of cv_rejecting square_90 = Inr (Some 90) \<and>
   detect_piece_on_square cv_rejecting square_90 = Inr (Some ''p'') \<and>
   detect_piece_on_square cv_rejecting square_90 \<noteq> Inr (Some '' '')"
  by (simp add: avg_brightness_of_def detect_piece_on_square_def square_90_def np_mean_def
        mean_def nan_less_def nan_ge_def)

text \<open>
  Claim C9, amended. When the mean luminance \<open>m\<close> of the square is defined, the label is
  empty for \<open>90 < m < 170\<close> (both bounds excluded), the white pawn for \<open>m \<ge> 170\<close> and the
  black pawn for \<open>m \<le> 90\<close>.
\<close>

theorem classifier_bands:
  assumes "avg_brightness_of cv square_img = Inr (Some m)"
  shows "(90 < m \<and> m < 170 \<longrightarrow> detect_piece_on_square cv square_img = Inr (Some '' '')) \<and>
         (170 \<le> m \<longrightarrow> detect_piece_on_square cv square_img = Inr (Some ''P'')) \<and>
         (m \<le> 90 \<longrightarrow> detect_piece_on_square cv square_img = Inr (Some ''p''))"
  using assms
  by (auto simp: avg_brightness_of_def detect_piece_on_square_def nan_less_def nan_ge_def
           split: sum.splits if_splits)

theorem classifier_bands_witness:
  "avg_brightness_of cv_rejecting mid_square = Inr (Some 150) \<and>
   detect_piece_on_square cv_rejecting mid_square = Inr (Some '' '')"
proof -
  have h: "avg_brightness_of cv_rejecting mid_square = Inr (Some 150)"
    by (simp add: avg_brightness_of_def mid_square_def np_mean_def mean_def)
  from h classifier_bands [OF h] show ?thesis by simp
qed

section \<open>Properties of get_position_fen\<close>

lemma for_each_fails:
  "x \<in> set xs \<Longrightarrow> (\<And>st. \<exists>e. body x st = Inl e) \<Longrightarrow> \<exists>e. for_each body xs st = Inl e"
proof (induction xs arbitrary: st)
  case Nil
  then show ?case by simp
next
  case (Cons y ys)
  show ?case
  proof (cases "body y st")
    case (Inl e)
    then show ?thesis by simp
  next
    case (Inr st')
    show ?thesis
    proof (cases "x = y")
      case True
      with Cons.prems(2) [of st] Inr show ?thesis by simp
    next
      case False
      with Cons.prems have "x \<in> set ys" by simp
      from Cons.IH [OF this Cons.prems(2), of st'] Inr show ?thesis by simp
    qed
  qed
qed

lemma body_fails_at_cell:
  assumes sh: "shape2 img = Inr (h, w)" and r: "row < 8" and c: "col < 8"
    and sq: "square_at img (h div 8) row col = Inr sq" and cl: "classify sq = Inl e"
  shows "\<exists>e'. position_fen_body classify img = Inl e'"
proof -
  have inner: "\<exists>e'. for_each (scan_square classify img (h div 8) row) [0..<8] b = Inl e'" for b
  proof (rule for_each_fails [where x = col])
    show "col \<in> set [0..<8]" using c by simp
    show "\<exists>e'. scan_square classify img (h div 8) row col st = Inl e'" for st
      using sq cl by (simp add: scan_square_def)
  qed
  have "\<exists>e'. for_each (\<lambda>row. for_each (scan_square classify img (h div 8) row) [0..<8])
                [0..<8] (replicate 8 (replicate 8 '' '')) = Inl e'"
    by (rule for_each_fails [where x = row]) (use r inner in auto)
  then show ?thesis using sh by (auto simp: position_fen_body_def Let_def)
qed

lemma for_each_inv:
  assumes "I st"
    and "\<And>x st. x \<in> set xs \<Longrightarrow> I st \<Longrightarrow> \<exists>st'. body x st = Inr st' \<and> I st'"
  shows "\<exists>st'. for_each body xs st = Inr st' \<and> I st'"
  using assms
proof (induction xs arbitrary: st)
  case Nil
  then show ?case by simp
next
  case (Cons y ys)
  from Cons.prems(2) [of y st] Cons.prems(1)
  obtain st1 where s1: "body y st = Inr st1" "I st1" by auto
  have "\<exists>st'. for_each body ys st1 = Inr st' \<and> I st'"
    by (rule Cons.IH [OF s1(2)]) (use Cons.prems(2) in auto)
  with s1 show ?case by simp
qed

lemma is_grid8_update: "is_grid8 b \<Longrightarrow> is_grid8 (b[i := (b ! i)[j := v]])"
proof (cases "i < length b")
  case True
  assume "is_grid8 b"
  with True show ?thesis
    by (auto simp: is_grid8_def list_all_length nth_list_update)
next
  case False
  assume "is_grid8 b"
  with False show ?thesis by (simp add: list_update_beyond)
qed

lemma is_grid8_blank: "is_grid8 (replicate 8 (replicate 8 '' ''))"
  by (simp add: is_grid8_def list_all_length)

lemma square_at_total:
  "shape2 img = Inr (h, w) \<Longrightarrow> \<exists>sq. square_at img ss row col = Inr sq"
  by (cases img) (simp_all add: square_at_def)

lemma board_to_fen_total: "is_grid8 b \<Longrightarrow> \<exists>fen. board_to_fen b = Inr fen"
proof -
  assume "is_grid8 b"
  then have "\<forall>r\<in>set [0..<8]. r < length b \<and> length (b ! r) = 8"
    by (auto simp: is_grid8_def list_all_length)
  from fen_rows_text [OF this] show ?thesis by (simp add: board_to_fen_def)
qed

lemma position_fen_body_succeeds:
  assumes sh: "shape2 img = Inr (h, w)"
    and cl: "\<And>row col sq. row < 8 \<Longrightarrow> col < 8 \<Longrightarrow>
               square_at img (h div 8) row col = Inr sq \<Longrightarrow> \<exists>l. classify sq = Inr l"
  shows "\<exists>fen. position_fen_body classify img = Inr fen"
proof -
  have cell: "\<exists>b'. scan_square classify img (h div 8) row col b = Inr b' \<and> is_grid8 b'"
    if "row < 8" "col < 8" "is_grid8 b" for row col b
  proof -
    from square_at_total [OF sh] obtain sq
      where sq: "square_at img (h div 8) row col = Inr sq" by blast
    from cl [OF that(1,2) sq] obtain l where "classify sq = Inr l" by blast
    with sq that(3) show ?thesis by (simp add: scan_square_def is_grid8_update)
  qed
  have inner: "\<exists>b'. for_each (scan_square classify img (h div 8) row) [0..<8] b = Inr b' \<and>
                 is_grid8 b'" if "row < 8" "is_grid8 b" for row b
    by (rule for_each_inv [where I = is_grid8]) (use that cell in auto)
  have "\<exists>b'. for_each (\<lambda>row. for_each (scan_square classify img (h div 8) row) [0..<8])
                [0..<8] (replicate 8 (replicate 8 '' '')) = Inr b' \<and> is_grid8 b'"
    by (rule for_each_inv [where I = is_grid8]) (use inner is_grid8_blank in auto)
  then obtain b' where
    "for_each (\<lambda>row. for_each (scan_square classify img (h div 8) row) [0..<8])
       [0..<8] (replicate 8 (replicate 8 '' '')) = Inr b'" "is_grid8 b'" by blast
  with board_to_fen_total [of b'] sh show ?thesis
    by (auto simp: position_fen_body_def Let_def)
qed

lemma for_each_preserves:
  assumes "I st" and "for_each body xs st = Inr st'"
    and "\<And>x st st'. x \<in> set xs \<Longrightarrow> I st \<Longrightarrow> body x st = Inr st' \<Longrightarrow> I st'"
  shows "I st'"
  using assms
proof (induction xs arbitrary: st)
  case Nil
  then show ?case by simp
next
  case (Cons y ys)
  from Cons.prems(2) obtain st1 where s1: "body y st = Inr st1" "for_each body ys st1 = Inr st'"
    by (auto split: sum.splits)
  from Cons.prems(3) [of y st st1] Cons.prems(1) s1(1) have "I st1" by simp
  from Cons.IH [OF this s1(2)] Cons.prems(3) show ?case by auto
qed

lemma reference_label:
  "detect_piece_on_square cv sq = Inr l \<Longrightarrow> \<exists>t. l = Some t \<and> t \<in> reference_labels \<and> t \<noteq> []"
  by (auto simp: detect_piece_on_square_def reference_labels_def split: sum.splits if_splits)

lemma list_all_update: "list_all P xs \<Longrightarrow> P v \<Longrightarrow> list_all P (xs[j := v])"
  using set_update_subset_insert [of xs j v] by (auto simp: list_all_iff)

lemma reference_grid_update:
  assumes "reference_grid b" "v \<in> reference_labels"
  shows "reference_grid (b[i := (b ! i)[j := v]])"
proof (cases "i < length b")
  case True
  from assms(1) have rows: "list_all (list_all (\<lambda>c. c \<in> reference_labels)) b"
    by (simp add: reference_grid_def)
  with True have "list_all (\<lambda>c. c \<in> reference_labels) (b ! i)"
    by (simp add: list_all_length)
  then have "list_all (\<lambda>c. c \<in> reference_labels) ((b ! i)[j := v])"
    using assms(2) by (rule list_all_update)
  with rows have "list_all (list_all (\<lambda>c. c \<in> reference_labels)) (b[i := (b ! i)[j := v]])"
    by (rule list_all_update)
  with assms(1) show ?thesis by (simp add: reference_grid_def is_grid8_update)
next
  case False
  with assms show ?thesis by (simp add: list_update_beyond)
qed

lemma reference_grid_blank: "reference_grid (replicate 8 (replicate 8 '' ''))"
  by (simp add: reference_grid_def is_grid8_blank reference_labels_def list_all_length)

lemma scan_square_reference:
  "reference_grid b \<Longrightarrow>
   scan_square (detect_piece_on_square cv) img ss row col b = Inr b' \<Longrightarrow> reference_grid b'"
  by (auto simp: scan_square_def truthy_def reference_grid_update
           split: sum.splits if_splits dest!: reference_label)

lemma rank_text_head:
  "list_all (\<lambda>c. c \<in> reference_labels) cs \<Longrightarrow> e + length cs < 10 \<Longrightarrow> 0 < e + length cs \<Longrightarrow>
   rank_text e cs \<noteq> [] \<and> hd (rank_text e cs) \<noteq> CHR ''r''"
proof (induction cs arbitrary: e)
  case Nil
  then have "is_digit (digit_char e)" by (simp add: digit_char_props)
  then have "digit_char e \<noteq> CHR ''r''" by (auto simp: is_digit_def)
  with Nil show ?case by (simp add: str_nat_digit)
next
  case (Cons c cs)
  show ?case
  proof (cases "c = '' ''")
    case True
    with Cons.IH [of "e + 1"] Cons.prems show ?thesis by simp
  next
    case False
    with Cons.prems have c: "c = ''P'' \<or> c = ''p''" by (simp add: reference_labels_def)
    show ?thesis
    proof (cases "e > 0")
      case True
      with Cons.prems have "is_digit (digit_char e)" by (simp add: digit_char_props)
      then have "digit_char e \<noteq> CHR ''r''" by (auto simp: is_digit_def)
      with True False Cons.prems show ?thesis by (simp add: str_nat_digit)
    next
      case e0: False
      with c show ?thesis by auto
    qed
  qed
qed

lemma reference_fen_head:
  assumes "reference_grid b" "board_to_fen b = Inr fen"
  shows "fen \<noteq> start_fen"
proof -
  from assms(1) have rows: "\<forall>r\<in>set [0..<8]. r < length b \<and> length (b ! r) = 8"
    by (auto simp: reference_grid_def is_grid8_def list_all_length)
  from assms(1) have r0: "list_all (\<lambda>c. c \<in> reference_labels) (b ! 0)" "length (b ! 0) = 8"
    by (auto simp: reference_grid_def is_grid8_def list_all_length)
  from rank_text_head [OF r0(1), of 0] r0(2)
  have h: "rank_text 0 (b ! 0) \<noteq> []" "hd (rank_text 0 (b ! 0)) \<noteq> CHR ''r''" by simp_all
  from assms(2) fen_rows_text [OF rows, of "[]"]
  have "fen = rank_text 0 (b ! 0) @
          (rank_sep 0 @ concat (map (\<lambda>r. rank_text 0 (b ! r) @ rank_sep r) [1, 2, 3, 4, 5, 6, 7]))
          @ '' w KQkq - 0 1''"
    by (auto simp: board_to_fen_def upt_8)
  then have "hd fen = hd (rank_text 0 (b ! 0))" using h(1) by simp
  with h(2) show ?thesis by (auto simp: start_fen_def)
qed

lemma reference_encoding_is_not_fallback:
  assumes "position_fen_body (detect_piece_on_square cv) img = Inr fen"
  shows "fen \<noteq> start_fen"
proof -
  from assms obtain h w b' where
    l: "for_each (\<lambda>row. for_each (scan_square (detect_piece_on_square cv) img (h div 8) row) [0..<8])
          [0..<8] (replicate 8 (replicate 8 '' '')) = Inr b'"
    and f: "board_to_fen b' = Inr fen"
    by (auto simp: position_fen_body_def Let_def split: sum.splits)
  have inner: "reference_grid st'"
    if "reference_grid st"
      "for_each (scan_square (detect_piece_on_square cv) img (h div 8) row) [0..<8] st = Inr st'"
    for row st st'
    by (rule for_each_preserves [where I = reference_grid, OF that])
       (rule scan_square_reference)
  have "reference_grid b'"
    by (rule for_each_preserves [where I = reference_grid, OF reference_grid_blank l])
       (rule inner)
  from reference_fen_head [OF this f] show ?thesis .
qed

text \<open>
  Claim C7. \<open>get_position_fen\<close> has no exceptional result. When the image has no
  two-dimensional shape, or the classifier raises on one of the 64 squares, it prints one
  line that starts with "Error in position extraction" and returns the notation of the
  initial position; when the body of its \<open>try\<close> block returns, it prints nothing. So the
  printed output is empty exactly when the encoding succeeded. With the classifier of the
  repository the returned string tells the two apart as well: a successful encoding is
  never the notation of the initial position.
\<close>

theorem get_position_fen_fallback:
  "(((\<exists>e. shape2 img = Inl e) \<or>
     (\<exists>h w row col sq e. shape2 img = Inr (h, w) \<and> row < 8 \<and> col < 8 \<and>
        square_at img (h div 8) row col = Inr sq \<and> classify sq = Inl e)) \<longrightarrow>
    (\<exists>e'. get_position_fen classify img =
           ([''Error in position extraction: '' @ exc_str e'], start_fen))) \<and>
   (\<forall>fen. position_fen_body classify img = Inr fen \<longrightarrow>
          get_position_fen classify img = ([], fen)) \<and>
   (fst (get_position_fen classify img) = [] \<longleftrightarrow>
      (\<exists>fen. position_fen_body classify img = Inr fen)) \<and>
   (\<forall>cv fen. classify = detect_piece_on_square cv \<and>
             position_fen_body classify img = Inr fen \<longrightarrow>
           snd (get_position_fen classify img) \<noteq> start_fen)"
proof (intro conjI impI allI)
  assume "(\<exists>e. shape2 img = Inl e) \<or>
     (\<exists>h w row col sq e. shape2 img = Inr (h, w) \<and> row < 8 \<and> col < 8 \<and>
        square_at img (h div 8) row col = Inr sq \<and> classify sq = Inl e)"
  then have "\<exists>e'. position_fen_body classify img = Inl e'"
  proof
    assume "\<exists>e. shape2 img = Inl e"
    then show ?thesis by (auto simp: position_fen_body_def)
  next
    assume "\<exists>h w row col sq e. shape2 img = Inr (h, w) \<and> row < 8 \<and> col < 8 \<and>
        square_at img (h div 8) row col = Inr sq \<and> classify sq = Inl e"
    then show ?thesis using body_fails_at_cell by blast
  qed
  then show "\<exists>e'. get_position_fen classify img =
           ([''Error in position extraction: '' @ exc_str e'], start_fen)"
    by (auto simp: get_position_fen_def)
next
  fix fen assume "position_fen_body classify img = Inr fen"
  then show "get_position_fen classify img = ([], fen)"
    by (simp add: get_position_fen_def)
next
  show "fst (get_position_fen classify img) = [] \<longleftrightarrow>
      (\<exists>fen. position_fen_body classify img = Inr fen)"
    by (cases "position_fen_body classify img") (simp_all add: get_position_fen_def)
next
  fix cv fen
  assume a: "classify = detect_piece_on_square cv \<and> position_fen_body classify img = Inr fen"
  with reference_encoding_is_not_fallback [of cv img fen] have "fen \<noteq> start_fen" by blast
  moreover from a have "position_fen_body classify img = Inr fen" by blast
  then have "get_position_fen classify img = ([], fen)"
    by (simp add: get_position_fen_def)
  ultimately show "snd (get_position_fen classify img) \<noteq> start_fen"
    by simp
qed

theorem get_position_fen_fallback_witness:
  "shape2 color_pixel = Inr (1, 1) \<and>
   square_at color_pixel (1 div 8) 0 0 = Inr (Color []) \<and>
   detect_piece_on_square cv_rejecting (Color []) = Inl cv_error \<and>
   get_position_fen (detect_piece_on_square cv_rejecting) color_pixel =
     ([''Error in position extraction: cv2.error''], start_fen) \<and>
   fst (get_position_fen (detect_piece_on_square cv_rejecting) top_dark_image) = []"
proof -
  have a: "shape2 color_pixel = Inr (1, 1)"
    by (simp add: color_pixel_def row_width_def)
  have b: "square_at color_pixel (1 div 8) 0 0 = Inr (Color [])"
    by (simp add: color_pixel_def square_at_def slice_def)
  have c: "detect_piece_on_square cv_rejecting (Color []) = Inl cv_error"
    by (simp add: detect_piece_on_square_def cv_rejecting_def)
  have d: "get_position_fen (detect_piece_on_square cv_rejecting) color_pixel =
     ([''Error in position extraction: cv2.error''], start_fen)"
    by code_simp
  have e: "position_fen_body (detect_piece_on_square cv_rejecting) top_dark_image =
     Inr ''8/8/8/8/8/8/8/pppppppp w KQkq - 0 1''"
    by code_simp
  from get_position_fen_fallback [of top_dark_image "detect_piece_on_square cv_rejecting"] e
  have "fst (get_position_fen (detect_piece_on_square cv_rejecting) top_dark_image) = []"
    by blast
  with a b c d show ?thesis by simp
qed

lemma replicate_8: "replicate 8 x = [x, x, x, x, x, x, x, x]"
  by (simp add: eval_nat_numeral)

text \<open>
  Where the labels go: when every square classifies to a non-empty label, the string is
  the serialisation of the board whose row \<open>r\<close> holds the labels of image row \<open>7 - r\<close>. The
  serialiser writes row 0 first, so the first rank field shows the bottom row of the image.
\<close>

lemma position_fen_body_layout:
  assumes sh: "shape2 img = Inr (h, w)"
    and cells: "\<And>row col. row < 8 \<Longrightarrow> col < 8 \<Longrightarrow>
      \<exists>sq. square_at img (h div 8) row col = Inr sq \<and>
           classify sq = Inr (Some (label row col)) \<and> label row col \<noteq> []"
  shows "position_fen_body classify img =
         board_to_fen (map (\<lambda>r. map (\<lambda>c. label (7 - r) c) [0..<8]) [0..<8])"
proof -
  have R: "scan_square classify img (h div 8) row col b =
           Inr (b[7 - row := (b ! (7 - row))[col := label row col]])"
    if "row < 8" "col < 8" for row col b
    using cells [OF that] by (auto simp: scan_square_def truthy_def)
  show ?thesis
    using sh by (simp add: position_fen_body_def Let_def upt_8 replicate_8 R)
qed

text \<open>
  Claim C1, on \<open>top_dark_image\<close>. Every square of image row 0 classifies to the black
  pawn, and every other square to empty; the label of (0, col) is stored at
  \<open>board[7][col]\<close>, and the serialiser writes \<open>board[0]\<close> first. The black pawns come
  out in the last rank field, and the first rank field is \<open>8\<close>.
\<close>

theorem top_image_row_serialised_last:
  "list_all (\<lambda>col. case square_at top_dark_image 1 0 col of
                      Inl e \<Rightarrow> False
                    | Inr sq \<Rightarrow> detect_piece_on_square cv_rejecting sq = Inr (Some ''p''))
     [0..<8] \<and>
   get_position_fen (detect_piece_on_square cv_rejecting) top_dark_image =
     ([], ''8/8/8/8/8/8/8/pppppppp w KQkq - 0 1'') \<and>
   split_on CHR ''/'' (placement ''8/8/8/8/8/8/8/pppppppp w KQkq - 0 1'') =
     [''8'', ''8'', ''8'', ''8'', ''8'', ''8'', ''8'', ''pppppppp'']"
proof (intro conjI)
  show "list_all (\<lambda>col. case square_at top_dark_image 1 0 col of
                      Inl e \<Rightarrow> False
                    | Inr sq \<Rightarrow> detect_piece_on_square cv_rejecting sq = Inr (Some ''p''))
     [0..<8]"
    by code_simp
  show "get_position_fen (detect_piece_on_square cv_rejecting) top_dark_image =
     ([], ''8/8/8/8/8/8/8/pppppppp w KQkq - 0 1'')"
    by code_simp
  show "split_on CHR ''/'' (placement ''8/8/8/8/8/8/8/pppppppp w KQkq - 0 1'') =
     [''8'', ''8'', ''8'', ''8'', ''8'', ''8'', ''8'', ''pppppppp'']"
    by code_simp
qed

section \<open>Properties of detect_board\<close>

lemma scan_contours_none:
  "\<forall>c\<in>set contours. measurable cv c \<and> \<not> qualifies cv min_board_size c \<Longrightarrow>
   scan_contours cv min_board_size img contours = Inr None"
proof (induction contours)
  case Nil
  then show ?case by simp
next
  case (Cons c cs)
  then have m: "measurable cv c" and q: "\<not> qualifies cv min_board_size c"
    and rest: "scan_contours cv min_board_size img cs = Inr None"
    by simp_all
  from m q rest show ?case
    by (auto simp: measurable_def qualifies_def split: sum.splits)
qed

text \<open>
  Claim C8, as stated, on a grayscale image without pixels: no contour is in it, and the
  threshold call refuses it. \<open>detect_board\<close> has no handler, so the exception is its result.
\<close>

theorem detect_board_raises_on_empty_image:
  "findContours cv_strict (Gray []) = Inr [] \<and>
   adaptiveThreshold cv_strict (Gray []) = Inl cv_error \<and>
   detect_board cv_strict default_min_board_size (Gray []) = Inl cv_error"
  by (simp add: cv_strict_def cv_small_square_def without_entries_def detect_board_def
        board_contours_def)

text \<open>
  Claim C8, amended. When the OpenCV calls before the loop return the contours of the
  image, and for each contour the measuring calls return and the test of line 72 rejects
  it, \<open>detect_board\<close> returns \<open>None\<close>. An exception of an OpenCV call is not caught.
\<close>

theorem detect_board_not_found:
  assumes "board_contours cv img = Inr contours"
    and "\<forall>c\<in>set contours. measurable cv c \<and> \<not> qualifies cv min_board_size c"
  shows "detect_board cv min_board_size img = Inr None"
  using assms by (simp add: detect_board_def scan_contours_none)

theorem detect_board_not_found_witness:
  "board_contours cv_small_square top_dark_image = Inr [[(0, 0), (10, 0), (10, 10), (0, 10)]] \<and>
   measurable cv_small_square [(0, 0), (10, 0), (10, 10), (0, 10)] \<and>
   \<not> qualifies cv_small_square default_min_board_size [(0, 0), (10, 0), (10, 10), (0, 10)] \<and>
   detect_board cv_small_square default_min_board_size top_dark_image = Inr None"
proof -
  let ?c = "[(0, 0), (10, 0), (10, 10), (0, 10)] :: contour"
  have a: "board_contours cv_small_square top_dark_image = Inr [?c]"
    by (simp add: board_contours_def cv_small_square_def top_dark_image_def)
  have m: "measurable cv_small_square ?c"
    by (simp add: measurable_def cv_small_square_def)
  have q: "\<not> qualifies cv_small_square default_min_board_size ?c"
    by (simp add: qualifies_def cv_small_square_def default_min_board_size_def)
  have b: "\<forall>c\<in>set [?c]. measurable cv_small_square c \<and>
             \<not> qualifies cv_small_square default_min_board_size c"
    using m q by simp
  from a m q detect_board_not_found [OF a b] show ?thesis by simp
qed


section \<open>Properties of the engine session\<close>

lemma init_engine_trace:
  "\<exists>r. trace (init_engine lib s) = trace s @ Popen (stockfish_path s) # r"
  by (auto simp: init_engine_def Let_def split: sum.splits)

lemma init_engine_path: "stockfish_path (init_engine lib s) = stockfish_path s"
  by (auto simp: init_engine_def Let_def split: sum.splits)

lemma init_engine_ready:
  "popen_uci lib (trace s) (stockfish_path s) = Inr h \<Longrightarrow>
   configure lib (trace s @ [Popen (stockfish_path s)]) h [(''Threads'', 2), (''Hash'', 32)] = Inr () \<Longrightarrow>
   engine (init_engine lib s) = Some h"
  by (simp add: init_engine_def Let_def)

lemma analysis_body_session:
  "\<exists>r. trace (snd (analysis_body lib ch s h fen dep time_limit)) = trace s @ r \<and>
       engine (snd (analysis_body lib ch s h fen dep time_limit)) = engine s"
  by (auto simp: analysis_body_def Let_def split: sum.splits)

lemma get_best_move_session:
  "\<exists>r. trace (snd (get_best_move lib ch s fen dep time_limit)) = trace (ensure_engine lib s) @ r \<and>
       engine (snd (get_best_move lib ch s fen dep time_limit)) = engine (ensure_engine lib s)"
proof (cases "engine (ensure_engine lib s)")
  case None
  then show ?thesis by (simp add: get_best_move_def Let_def)
next
  case (Some h)
  from analysis_body_session [of lib ch "ensure_engine lib s" h fen dep time_limit]
  obtain r where r: "trace (snd (analysis_body lib ch (ensure_engine lib s) h fen dep time_limit)) =
      trace (ensure_engine lib s) @ r"
    "engine (snd (analysis_body lib ch (ensure_engine lib s) h fen dep time_limit)) =
      engine (ensure_engine lib s)" by blast
  show ?thesis
  proof (cases "analysis_body lib ch (ensure_engine lib s) h fen dep time_limit")
    case (Pair res s1)
    with r Some show ?thesis
      by (cases res) (simp_all add: get_best_move_def Let_def)
  qed
qed

text \<open>
  Claim C3, as stated, on the session that \<open>quit\<close> closed: its engine attribute is
  \<open>None\<close> and one process was started so far; the next \<open>get_best_move\<close> starts a second
  process and leaves the session with a handle again.
\<close>

theorem closed_session_respawns:
  "engine closed_session = None \<and>
   spawns toy_engine [] (trace closed_session) = 1 \<and>
   engine (snd (get_best_move toy_engine toy_chess closed_session start_fen 18 2)) = Some 3 \<and>
   trace (snd (get_best_move toy_engine toy_chess closed_session start_fen 18 2)) =
     [Popen ''stockfish'', Configure 0, Quit 0, Popen ''stockfish'', Configure 3,
      Analyse 3, Play 3] \<and>
   spawns toy_engine []
     (trace (snd (get_best_move toy_engine toy_chess closed_session start_fen 18 2))) = 2"
  by code_simp

text \<open>
  Claim C3, amended. On a session that holds a handle, a \<open>quit\<close> whose library call
  returns releases the handle and makes that one call only; a second \<open>quit\<close> does
  nothing. The session is then in the state of one whose engine never started: the next
  \<open>get_best_move\<close> first calls \<open>popen_uci\<close>, and when that call and the configuration
  return, the session holds the new handle.
\<close>

theorem quit_releases_and_analysis_respawns:
  assumes e: "engine s = Some h" and q: "engine_quit lib (trace s) h = Inr ()"
  shows "quit lib s = (None, s\<lparr>trace := trace s @ [Quit h], engine := None\<rparr>) \<and>
         quit lib (snd (quit lib s)) = (None, snd (quit lib s)) \<and>
         (\<exists>rest. trace (snd (get_best_move lib ch (snd (quit lib s)) fen dep time_limit)) =
                   trace s @ [Quit h, Popen (stockfish_path s)] @ rest) \<and>
         (\<forall>h'. popen_uci lib (trace s @ [Quit h]) (stockfish_path s) = Inr h' \<and>
               configure lib (trace s @ [Quit h, Popen (stockfish_path s)]) h'
                 [(''Threads'', 2), (''Hash'', 32)] = Inr () \<longrightarrow>
               engine (snd (get_best_move lib ch (snd (quit lib s)) fen dep time_limit)) = Some h')"
proof -
  let ?c = "s\<lparr>trace := trace s @ [Quit h], engine := None\<rparr>"
  have q1: "quit lib s = (None, ?c)"
    using e q by (simp add: quit_def Let_def)
  have q2: "quit lib ?c = (None, ?c)"
    by (simp add: quit_def)
  have en: "ensure_engine lib ?c = init_engine lib ?c"
    by (simp add: ensure_engine_def)
  from init_engine_trace [of lib ?c] obtain r1
    where r1: "trace (init_engine lib ?c) = trace s @ [Quit h] @ Popen (stockfish_path s) # r1"
    by auto
  from get_best_move_session [of lib ch ?c fen dep time_limit] obtain r2
    where r2: "trace (snd (get_best_move lib ch ?c fen dep time_limit)) = trace (init_engine lib ?c) @ r2"
      and g: "engine (snd (get_best_move lib ch ?c fen dep time_limit)) = engine (init_engine lib ?c)"
    unfolding en by blast
  have t: "\<exists>rest. trace (snd (get_best_move lib ch ?c fen dep time_limit)) =
                   trace s @ [Quit h, Popen (stockfish_path s)] @ rest"
    unfolding r2 r1 by simp
  have re: "engine (snd (get_best_move lib ch ?c fen dep time_limit)) = Some h'"
    if "popen_uci lib (trace s @ [Quit h]) (stockfish_path s) = Inr h'"
      "configure lib (trace s @ [Quit h, Popen (stockfish_path s)]) h'
                 [(''Threads'', 2), (''Hash'', 32)] = Inr ()" for h'
    unfolding g using that by (simp add: init_engine_ready)
  from q1 q2 t re show ?thesis by simp
qed

theorem quit_releases_and_analysis_respawns_witness:
  "engine ready_session = Some 0 \<and>
   engine_quit toy_engine (trace ready_session) 0 = Inr () \<and>
   quit toy_engine ready_session =
     (None, ready_session\<lparr>trace := trace ready_session @ [Quit 0], engine := None\<rparr>) \<and>
   engine (snd (get_best_move toy_engine toy_chess (snd (quit toy_engine ready_session))
                  start_fen 18 2)) = Some 3"
proof -
  have e: "engine ready_session = Some 0" by code_simp
  have q: "engine_quit toy_engine (trace ready_session) 0 = Inr ()"
    by (simp add: toy_engine_def)
  have p: "popen_uci toy_engine (trace ready_session @ [Quit 0]) (stockfish_path ready_session)
           = Inr 3" by code_simp
  have c: "configure toy_engine
             (trace ready_session @ [Quit 0, Popen (stockfish_path ready_session)]) 3
             [(''Threads'', 2), (''Hash'', 32)] = Inr ()"
    by (simp add: toy_engine_def)
  from quit_releases_and_analysis_respawns [OF e q, of toy_chess start_fen 18 2] p c e q
  show ?thesis by blast
qed

lemma analysis_body_analyse:
  "chess_Board ch fen = Inr board \<Longrightarrow>
   \<exists>rest. trace (snd (analysis_body lib ch s h fen dep time_limit)) = trace s @ Analyse h # rest"
  by (auto simp: analysis_body_def Let_def split: sum.splits)

lemma get_best_move_analyse:
  assumes "chess_Board ch fen = Inr board" "engine s = Some h"
  shows "\<exists>rest. trace (snd (get_best_move lib ch s fen dep time_limit)) =
                 trace s @ Analyse h # rest"
proof -
  from analysis_body_analyse [OF assms(1), of lib s h dep time_limit] obtain rest
    where r: "trace (snd (analysis_body lib ch s h fen dep time_limit)) =
              trace s @ Analyse h # rest" by blast
  show ?thesis
  proof (cases "analysis_body lib ch s h fen dep time_limit")
    case (Pair res s1)
    with r assms(2) show ?thesis
      by (cases res) (simp_all add: get_best_move_def ensure_engine_def Let_def)
  qed
qed

text \<open>
  Claim C4, as stated, on a notation that parses and has no king: it is not a legal
  position, and \<open>analyze_position\<close> does not return the error; it runs both engine
  searches on it.
\<close>

theorem illegal_notation_reaches_engine:
  "\<not> has_both_kings flipped_fen \<and>
   chess_Board toy_chess flipped_fen = Inr flipped_fen \<and>
   fst (analyze_position toy_engine toy_chess ready_session flipped_fen 18 2) \<noteq>
     Inr (Invalid ''Invalid FEN string'') \<and>
   trace (snd (analyze_position toy_engine toy_chess ready_session flipped_fen 18 2)) =
     trace ready_session @ [Analyse 0, Play 0]"
proof (intro conjI)
  show "\<not> has_both_kings flipped_fen" by code_simp
  show "chess_Board toy_chess flipped_fen = Inr flipped_fen" by code_simp
  show "fst (analyze_position toy_engine toy_chess ready_session flipped_fen 18 2) \<noteq>
     Inr (Invalid ''Invalid FEN string'')" by code_simp
  show "trace (snd (analyze_position toy_engine toy_chess ready_session flipped_fen 18 2)) =
     trace ready_session @ [Analyse 0, Play 0]" by code_simp
qed

text \<open>
  Claim C4, amended. When the library's parser rejects the notation with a ValueError,
  \<open>analyze_position\<close> returns the dictionary with the error "Invalid FEN string" and the
  session it was given: no call reached the engine, and the handle is the same. A
  notation the parser accepts is analysed, legal or not: on a session that holds a handle
  the next engine call is the analysis.
\<close>

theorem analyze_position_invalid:
  "(\<forall>m. chess_Board ch fen = Inl (ValueError m) \<longrightarrow>
        analyze_position lib ch s fen dep time_limit =
          (Inr (Invalid ''Invalid FEN string''), s)) \<and>
   (\<forall>board h. chess_Board ch fen = Inr board \<and> engine s = Some h \<longrightarrow>
        (\<exists>rest. trace (snd (analyze_position lib ch s fen dep time_limit)) =
                  trace s @ Analyse h # rest))"
proof (intro conjI allI impI)
  fix m assume "chess_Board ch fen = Inl (ValueError m)"
  then show "analyze_position lib ch s fen dep time_limit =
          (Inr (Invalid ''Invalid FEN string''), s)"
    by (simp add: analyze_position_def)
next
  fix board h assume a: "chess_Board ch fen = Inr board \<and> engine s = Some h"
  then have "snd (analyze_position lib ch s fen dep time_limit) =
             snd (get_best_move lib ch s fen dep time_limit)"
    by (simp add: analyze_position_def split: prod.splits)
  with a get_best_move_analyse [of ch fen board s h lib dep time_limit]
  show "\<exists>rest. trace (snd (analyze_position lib ch s fen dep time_limit)) =
                  trace s @ Analyse h # rest"
    by simp
qed

theorem analyze_position_invalid_witness:
  "chess_Board toy_chess ''invalid-fen-string'' = Inl (ValueError ''invalid fen'') \<and>
   analyze_position toy_engine toy_chess ready_session ''invalid-fen-string'' 18 2 =
     (Inr (Invalid ''Invalid FEN string''), ready_session)"
proof -
  have p: "chess_Board toy_chess ''invalid-fen-string'' = Inl (ValueError ''invalid fen'')"
    by (simp add: toy_chess_def placement_def)
  from p analyze_position_invalid [of toy_chess "''invalid-fen-string''" toy_engine
      ready_session 18 2]
  show ?thesis by blast
qed

section \<open>Properties of the analysis result\<close>

lemma str_nat_digits: "str_nat n \<noteq> [] \<and> list_all is_digit (str_nat n)"
proof (induction n rule: str_nat.induct)
  case (1 n)
  show ?case
  proof (cases "n < 10")
    case True
    then show ?thesis by (simp add: str_nat.simps [of n] digit_char_props)
  next
    case False
    with 1 have "list_all is_digit (str_nat (n div 10))" by simp
    moreover have "is_digit (digit_char (n mod 10))" by (simp add: digit_char_props)
    ultimately show ?thesis using False by (simp add: str_nat.simps [of n])
  qed
qed

lemma foldl_str_nat: "foldl (\<lambda>a c. 10 * a + digit_val c) 0 (str_nat n) = n"
proof (induction n rule: str_nat.induct)
  case (1 n)
  show ?case
  proof (cases "n < 10")
    case True
    then show ?thesis by (simp add: str_nat.simps [of n] digit_char_props)
  next
    case False
    with 1 have "foldl (\<lambda>a c. 10 * a + digit_val c) 0 (str_nat (n div 10)) = n div 10" by simp
    then show ?thesis using False
      by (simp add: str_nat.simps [of n] digit_char_props)
  qed
qed

lemma read_nat_str_nat: "read_nat (str_nat n) = Some n"
  using str_nat_digits [of n] by (simp add: read_nat_def foldl_str_nat)

lemma mate_in_reads: "0 < n \<Longrightarrow> signed_mate_distance (''Mate in '' @ str_int n) = Some n"
  by (simp add: signed_mate_distance_def str_int_def read_nat_str_nat)

lemma mated_in_reads: "n \<le> 0 \<Longrightarrow> signed_mate_distance (''Mated in '' @ str_int (- n)) = Some n"
  by (simp add: signed_mate_distance_def str_int_def read_nat_str_nat)

lemma takeWhile_digits:
  "list_all is_digit w \<Longrightarrow> \<not> is_digit c \<Longrightarrow>
   takeWhile is_digit (w @ c # r) = w \<and> dropWhile is_digit (w @ c # r) = c # r"
  by (induction w) auto

lemma dot_not_digit: "\<not> is_digit CHR ''.''"
  by (simp add: is_digit_def)

lemma hundredths_split: "(a::nat) mod 100 = 10 * (a mod 100 div 10) + a mod 10"
proof -
  have "a mod 100 mod 10 = a mod 10" by (simp add: mod_mod_cancel)
  moreover have "a mod 100 = 10 * (a mod 100 div 10) + a mod 100 mod 10" by simp
  ultimately show ?thesis by simp
qed

lemma read_hundredths_neg:
  assumes "w \<noteq> []" "list_all is_digit w" "is_digit d1" "is_digit d2"
  shows "read_hundredths (CHR ''-'' # w @ CHR ''.'' # [d1, d2]) =
         map_option (\<lambda>n. - (of_nat n + of_nat (10 * digit_val d1 + digit_val d2) / 100))
           (read_nat w)"
  using assms takeWhile_digits [OF assms(2) dot_not_digit, of "[d1, d2]"]
  by (simp add: read_hundredths_def Let_def read_nat_def)

lemma read_hundredths_pos:
  assumes "w \<noteq> []" "list_all is_digit w" "is_digit d1" "is_digit d2"
  shows "read_hundredths (w @ CHR ''.'' # [d1, d2]) =
         map_option (\<lambda>n. of_nat n + of_nat (10 * digit_val d1 + digit_val d2) / 100)
           (read_nat w)"
proof -
  from assms(1,2) have "hd (w @ CHR ''.'' # [d1, d2]) \<noteq> CHR ''-''"
    by (cases w) (auto simp: is_digit_def)
  with assms takeWhile_digits [OF assms(2) dot_not_digit, of "[d1, d2]"]
  show ?thesis by (simp add: read_hundredths_def Let_def read_nat_def)
qed

lemma hundredths_value:
  "(of_nat (a div 100) + of_nat (10 * (a mod 100 div 10) + a mod 10) / 100 :: rat) =
   of_nat a / 100"
proof -
  have "a = 100 * (a div 100) + a mod 100" by simp
  then have "(of_nat a :: rat) = of_nat (100 * (a div 100) + a mod 100)"
    by simp
  then have "(of_nat a :: rat) = 100 * of_nat (a div 100) + of_nat (a mod 100)"
    by (simp only: of_nat_add of_nat_mult of_nat_numeral)
  moreover have "(of_nat (a mod 100) :: rat) = of_nat (10 * (a mod 100 div 10) + a mod 10)"
    using hundredths_split [of a] by simp
  ultimately show ?thesis by (simp only: add_divide_distrib)
qed

lemma format_neg:
  "c < 0 \<Longrightarrow> format_2f_hundredths c =
     CHR ''-'' # str_nat (nat (- c) div 100) @
     CHR ''.'' # [digit_char (nat (- c) mod 100 div 10), digit_char (nat (- c) mod 10)]"
  by (simp add: format_2f_hundredths_def Let_def abs_if)

lemma format_pos:
  "\<not> c < 0 \<Longrightarrow> format_2f_hundredths c =
     str_nat (nat c div 100) @
     CHR ''.'' # [digit_char (nat c mod 100 div 10), digit_char (nat c mod 10)]"
  by (simp add: format_2f_hundredths_def Let_def abs_if)

lemma read_hundredths_digits_neg:
  "read_hundredths (CHR ''-'' # str_nat (a div 100) @
     CHR ''.'' # [digit_char (a mod 100 div 10), digit_char (a mod 10)]) =
   Some (- (of_nat a / 100))"
proof -
  have d: "is_digit (digit_char (a mod 100 div 10))" "is_digit (digit_char (a mod 10))"
    "digit_val (digit_char (a mod 100 div 10)) = a mod 100 div 10"
    "digit_val (digit_char (a mod 10)) = a mod 10"
    by (simp_all add: digit_char_props)
  from str_nat_digits [of "a div 100"]
  have w: "str_nat (a div 100) \<noteq> []" "list_all is_digit (str_nat (a div 100))" by simp_all
  show ?thesis
    unfolding read_hundredths_neg [OF w d(1,2)] read_nat_str_nat d(3,4) option.map
      hundredths_value ..
qed

lemma read_hundredths_digits_pos:
  "read_hundredths (str_nat (a div 100) @
     CHR ''.'' # [digit_char (a mod 100 div 10), digit_char (a mod 10)]) =
   Some (of_nat a / 100)"
proof -
  have d: "is_digit (digit_char (a mod 100 div 10))" "is_digit (digit_char (a mod 10))"
    "digit_val (digit_char (a mod 100 div 10)) = a mod 100 div 10"
    "digit_val (digit_char (a mod 10)) = a mod 10"
    by (simp_all add: digit_char_props)
  from str_nat_digits [of "a div 100"]
  have w: "str_nat (a div 100) \<noteq> []" "list_all is_digit (str_nat (a div 100))" by simp_all
  show ?thesis
    unfolding read_hundredths_pos [OF w d(1,2)] read_nat_str_nat d(3,4) option.map
      hundredths_value ..
qed

lemma read_hundredths_format:
  "read_hundredths (format_2f_hundredths c) = Some (of_int c / 100)"
proof (cases "c < 0")
  case True
  then have "(of_nat (nat (- c)) :: rat) = - of_int c" by simp
  then have "- (of_nat (nat (- c)) / 100 :: rat) = of_int c / 100" by simp
  then show ?thesis
    unfolding format_neg [OF True] read_hundredths_digits_neg by (simp only:)
next
  case False
  then have "(of_nat (nat c) :: rat) = of_int c" by simp
  then show ?thesis
    unfolding format_pos [OF False] read_hundredths_digits_pos by (simp only:)
qed


lemma dropWhile_not_dot:
  "list_all is_digit w \<Longrightarrow>
   dropWhile (\<lambda>ch. ch \<noteq> CHR ''.'') (w @ CHR ''.'' # r) = CHR ''.'' # r"
  by (induction w) (auto simp: is_digit_def)

lemma two_decimals:
  "length (dropWhile (\<lambda>ch. ch \<noteq> CHR ''.'') (format_2f_hundredths c)) = 3"
proof (cases "c < 0")
  case True
  show ?thesis
    unfolding format_neg [OF True] using str_nat_digits [of "nat (- c) div 100"]
    by (simp add: dropWhile_not_dot)
next
  case False
  show ?thesis
    unfolding format_pos [OF False] using str_nat_digits [of "nat c div 100"]
    by (simp add: dropWhile_not_dot)
qed

lemma get_best_move_result:
  assumes ready: "engine (ensure_engine lib s) = Some h"
    and parse: "chess_Board ch fen = Inr board"
    and an: "analyse lib (trace (ensure_engine lib s)) h board
               \<lparr>limit_depth = dep, limit_time = time_limit\<rparr> = Inr info"
    and pl: "play lib (trace (ensure_engine lib s) @ [Analyse h]) h board
               \<lparr>limit_depth = dep, limit_time = time_limit\<rparr> = Inr mv"
    and sc: "format_score (info_score info) = Inr score_text"
  shows "fst (get_best_move lib ch s fen dep time_limit) =
         Analysis (map_option (uci ch) mv) score_text
           (case info_depth info of None \<Rightarrow> 0 | Some d \<Rightarrow> d)
           (case info_pv info of None \<Rightarrow> [] | Some ms \<Rightarrow> map (uci ch) ms)"
  using assms by (simp add: get_best_move_def analysis_body_def Let_def)

text \<open>
  What the two format expressions would return: a mate text reads back as the signed
  distance it was made from, and a centipawn text as the hundredths it was made from, with
  two decimals.
\<close>

lemma mate_text_reads: "signed_mate_distance (mate_text n) = Some n"
  using mate_in_reads [of n] mated_in_reads [of n] by (cases "0 < n") (simp_all add: mate_text_def)

lemma cp_text_reads:
  "read_hundredths (cp_text (Some c)) = Some (of_int c / 100) \<and>
   length (dropWhile (\<lambda>ch. ch \<noteq> CHR ''.'') (cp_text (Some c))) = 3"
  by (simp add: cp_text_def read_hundredths_format two_decimals)

text \<open>Every score the analysis reports ends the call in the \<open>except\<close> clause.\<close>

lemma format_score_raises: "\<exists>m. format_score (Some so) = Inl (AttributeError m)"
  by (simp add: format_score_def pov_mate_def pov_cp_def)

lemma scored_analysis_fails:
  assumes ready: "engine (ensure_engine lib s) = Some h"
    and parse: "chess_Board ch fen = Inr board"
    and an: "analyse lib (trace (ensure_engine lib s)) h board
               \<lparr>limit_depth = dep, limit_time = time_limit\<rparr> = Inr info"
    and pl: "play lib (trace (ensure_engine lib s) @ [Analyse h]) h board
               \<lparr>limit_depth = dep, limit_time = time_limit\<rparr> = Inr mv"
    and sc: "info_score info = Some so"
  shows "\<exists>m. fst (get_best_move lib ch s fen dep time_limit) =
              Failure (''Analysis error: '' @ m)"
proof -
  from format_score_raises [of so] obtain m
    where "format_score (Some so) = Inl (AttributeError m)" by blast
  with assms have "fst (get_best_move lib ch s fen dep time_limit) =
                   Failure (''Analysis error: '' @ m)"
    by (simp add: get_best_move_def analysis_body_def Let_def)
  then show ?thesis by blast
qed

text \<open>
  Claim C5, on the analysis of the initial position (35 centipawns) and of a position
  with a mate in three against the side to move. The format expressions would give
  "0.35" and "Mated in 3"; the call returns the error dictionary in both cases, and the
  score the analyzer reads from it is absent.
\<close>

theorem scored_analysis_returns_error:
  "cp_text (Some 35) = ''0.35'' \<and>
   mate_text (- 3) = ''Mated in 3'' \<and>
   fst (get_best_move toy_engine toy_chess ready_session start_fen 18 2) =
     Failure ''Analysis error: PovScore object has no attribute cp'' \<and>
   fst (get_best_move toy_engine toy_chess ready_session flipped_fen 18 2) =
     Failure ''Analysis error: PovScore object has no attribute mate'' \<and>
   get_key_score (fst (get_best_move toy_engine toy_chess ready_session start_fen 18 2)) = None"
proof (intro conjI)
  show "cp_text (Some 35) = ''0.35''" by code_simp
  show "mate_text (- 3) = ''Mated in 3''" by code_simp
  show "fst (get_best_move toy_engine toy_chess ready_session start_fen 18 2) =
     Failure ''Analysis error: PovScore object has no attribute cp''" by code_simp
  show "fst (get_best_move toy_engine toy_chess ready_session flipped_fen 18 2) =
     Failure ''Analysis error: PovScore object has no attribute mate''" by code_simp
  show "get_key_score (fst (get_best_move toy_engine toy_chess ready_session start_fen 18 2))
        = None" by code_simp
qed

text \<open>
  Claim C6, as stated, on an engine whose two searches disagree and whose analysis
  reports no score: the reported variation starts with e2e4 and the best move returned
  is d2d4.
\<close>

theorem best_move_differs_from_variation:
  "fst (get_best_move toy_engine_unscored toy_chess unscored_session start_fen 18 2) =
     Analysis (Some ''d2d4'') None 18 [''e2e4'', ''e7e5''] \<and>
   Some ''d2d4'' \<noteq> Some (hd [''e2e4'', ''e7e5''])"
  by code_simp

text \<open>
  Claim C6, amended. In an analysis that returns a result (one whose engine information
  carries no score), the best move is the coordinate notation of the move that the
  separate \<open>play\<close> call returns (absent when it returns none), and the variation is the one
  the \<open>analyse\<close> call reported; the best move is the head of the variation when the
  engine's two answers start with the same move.
\<close>

theorem get_best_move_move_and_variation:
  assumes ready: "engine (ensure_engine lib s) = Some h"
    and parse: "chess_Board ch fen = Inr board"
    and an: "analyse lib (trace (ensure_engine lib s)) h board
               \<lparr>limit_depth = dep, limit_time = time_limit\<rparr> = Inr info"
    and pl: "play lib (trace (ensure_engine lib s) @ [Analyse h]) h board
               \<lparr>limit_depth = dep, limit_time = time_limit\<rparr> = Inr mv"
    and sc: "info_score info = None"
  shows "get_key_best_move (fst (get_best_move lib ch s fen dep time_limit)) =
           map_option (uci ch) mv \<and>
         get_key_pv (fst (get_best_move lib ch s fen dep time_limit)) =
           (case info_pv info of None \<Rightarrow> [] | Some ms \<Rightarrow> map (uci ch) ms) \<and>
         (\<forall>m ms. mv = Some m \<and> info_pv info = Some (m # ms) \<longrightarrow>
            get_key_best_move (fst (get_best_move lib ch s fen dep time_limit)) =
              Some (hd (get_key_pv (fst (get_best_move lib ch s fen dep time_limit)))))"
proof -
  from sc have f: "format_score (info_score info) = Inr None"
    by (simp add: format_score_def)
  show ?thesis
    unfolding get_best_move_result [OF ready parse an pl f] by auto
qed

theorem get_best_move_move_and_variation_witness:
  "engine (ensure_engine toy_engine_unscored unscored_session) = Some 0 \<and>
   chess_Board toy_chess start_fen = Inr start_fen \<and>
   get_key_best_move
     (fst (get_best_move toy_engine_unscored toy_chess unscored_session start_fen 18 2)) =
     Some ''d2d4'' \<and>
   get_key_pv
     (fst (get_best_move toy_engine_unscored toy_chess unscored_session start_fen 18 2)) =
     [''e2e4'', ''e7e5'']"
proof -
  let ?info = "\<lparr>info_pv = Some [''e2e4'', ''e7e5''], info_score = None,
                info_depth = Some 18\<rparr> :: string info"
  have r: "engine (ensure_engine toy_engine_unscored unscored_session) = Some 0" by code_simp
  have p: "chess_Board toy_chess start_fen = Inr start_fen" by code_simp
  have a: "analyse toy_engine_unscored
             (trace (ensure_engine toy_engine_unscored unscored_session)) 0 start_fen
             \<lparr>limit_depth = 18, limit_time = 2\<rparr> = Inr ?info"
    by (simp add: toy_engine_unscored_def)
  have l: "play toy_engine_unscored
             (trace (ensure_engine toy_engine_unscored unscored_session) @ [Analyse 0]) 0
             start_fen \<lparr>limit_depth = 18, limit_time = 2\<rparr> = Inr (Some ''d2d4'')"
    by (simp add: toy_engine_unscored_def toy_engine_def)
  have s: "info_score ?info = None" by simp
  from get_best_move_move_and_variation [OF r p a l s] r p show ?thesis
    by (simp add: toy_chess_def)
qed

section \<open>Properties of format_move_with_pieces\<close>

lemma occurs_in_self: "occurs_in m m"
  by (cases m) simp_all

lemma occurs_in_suffix: "occurs_in m (p @ m)"
  by (induction p) (simp_all add: occurs_in_self)

text \<open>
  Claim C10, as stated, on the malformed move \<open>e2\<close>: the string returned is "No move
  available", in which the raw move text does not occur.
\<close>

theorem short_move_fallback_omits_text:
  "format_move_with_pieces toy_chess start_fen (Some ''e2'') = ''No move available'' \<and>
   \<not> occurs_in ''e2'' (format_move_with_pieces toy_chess start_fen (Some ''e2''))"
  by code_simp

text \<open>
  Claim C10, amended. \<open>format_move_with_pieces\<close> has no exceptional result. For a move that
  is absent or shorter than four characters it returns "No move available"; for a move of
  four characters or more, when the library rejects the notation or the move, it returns
  "Move " followed by the raw move text.
\<close>

theorem format_move_fallbacks:
  "(move_uci = None \<longrightarrow> format_move_with_pieces ch fen move_uci = ''No move available'') \<and>
   (\<forall>m. move_uci = Some m \<and> length m < 4 \<longrightarrow>
        format_move_with_pieces ch fen move_uci = ''No move available'') \<and>
   (\<forall>m e. move_uci = Some m \<and> 4 \<le> length m \<and>
          (chess_Board ch fen = Inl e \<or>
           (\<exists>b. chess_Board ch fen = Inr b \<and> from_uci ch m = Inl e)) \<longrightarrow>
        format_move_with_pieces ch fen move_uci = ''Move '' @ m \<and>
        occurs_in m (format_move_with_pieces ch fen move_uci))"
proof (intro conjI allI impI)
  assume "move_uci = None"
  then show "format_move_with_pieces ch fen move_uci = ''No move available''"
    by (simp add: format_move_with_pieces_def)
next
  fix m assume "move_uci = Some m \<and> length m < 4"
  then show "format_move_with_pieces ch fen move_uci = ''No move available''"
    by (simp add: format_move_with_pieces_def)
next
  fix m e
  assume a: "move_uci = Some m \<and> 4 \<le> length m \<and>
          (chess_Board ch fen = Inl e \<or>
           (\<exists>b. chess_Board ch fen = Inr b \<and> from_uci ch m = Inl e))"
  then have "format_move_body ch fen m = Inl e"
    by (auto simp: format_move_body_def)
  with a have r: "format_move_with_pieces ch fen move_uci = ''Move '' @ m"
    by (auto simp: format_move_with_pieces_def)
  then show "format_move_with_pieces ch fen move_uci = ''Move '' @ m" .
  show "occurs_in m (format_move_with_pieces ch fen move_uci)"
    unfolding r by (rule occurs_in_suffix)
qed

theorem format_move_fallbacks_witness:
  "chess_Board toy_chess start_fen = Inr start_fen \<and>
   from_uci toy_chess ''e2e4e5e6'' = Inl (ValueError ''invalid uci'') \<and>
   format_move_with_pieces toy_chess start_fen (Some ''e2e4e5e6'') = ''Move e2e4e5e6'' \<and>
   occurs_in ''e2e4e5e6'' (format_move_with_pieces toy_chess start_fen (Some ''e2e4e5e6'')) \<and>
   format_move_with_pieces toy_chess start_fen None = ''No move available''"
proof -
  have p: "chess_Board toy_chess start_fen = Inr start_fen" by code_simp
  have u: "from_uci toy_chess ''e2e4e5e6'' = Inl (ValueError ''invalid uci'')"
    by (simp add: toy_chess_def)
  have l: "4 \<le> length ''e2e4e5e6''" by simp
  from format_move_fallbacks [of "Some ''e2e4e5e6''" toy_chess start_fen] p u l
  have "format_move_with_pieces toy_chess start_fen (Some ''e2e4e5e6'') =
          ''Move '' @ ''e2e4e5e6'' \<and>
        occurs_in ''e2e4e5e6'' (format_move_with_pieces toy_chess start_fen (Some ''e2e4e5e6''))"
    by blast
  moreover from format_move_fallbacks [of None toy_chess start_fen]
  have "format_move_with_pieces toy_chess start_fen None = ''No move available''" by blast
  ultimately show ?thesis using p u by simp
qed

end
